theory Spec2Isabelle
  imports Complex_Main
begin

section \<open>The lock module of redis-promise-lock\<close>

text \<open>
  The file \<^verbatim>\<open>src/lock.ts\<close> is present in two versions, one after the other.
  The first (lines 1 to 128, here \<open>V1\<close>) merges options with \<^verbatim>\<open>||\<close> and does
  not validate in the constructor; the second (lines 129 to 257, here \<open>V2\<close>) merges
  with \<^verbatim>\<open>!== undefined\<close> and validates in the constructor. Functions whose text
  differs get one equation per version; the retry loop and \<^verbatim>\<open>releaseLock\<close> have
  the same text in both and are written once.
\<close>

datatype variant = V1 | V2

subsection \<open>JavaScript values\<close>

text \<open>
  A JavaScript number is \<open>NaN\<close>, an infinity or a finite value. Finite values are
  carried as rationals (every double is one), with \<open>-0\<close> identified with \<open>0\<close>:
  the program only compares numbers and tests them for truthiness, and both treat the
  two zeros alike.
\<close>

datatype jsnum = NaN | NegInf | Fin rat | PosInf

text \<open>
  The values the callers of the module can hand over where the code itself tests the
  type at run time (lock names, option fields). \<open>Obj\<close> stands for any object.
\<close>

datatype jsval = Undefined | Null | Bool bool | Num jsnum | Str string | Obj

datatype jstype = TUndefined | TObject | TBoolean | TNumber | TString

fun typeof :: "jsval \<Rightarrow> jstype" where
  "typeof Undefined = TUndefined"
| "typeof Null = TObject"
| "typeof (Bool b) = TBoolean"
| "typeof (Num n) = TNumber"
| "typeof (Str s) = TString"
| "typeof Obj = TObject"

text \<open>Truthiness (\<^verbatim>\<open>ToBoolean\<close>): what \<^verbatim>\<open>!x\<close>, \<^verbatim>\<open>x || y\<close> and \<^verbatim>\<open>x && y\<close> test.\<close>

fun num_truthy :: "jsnum \<Rightarrow> bool" where
  "num_truthy NaN = False"
| "num_truthy (Fin r) = (r \<noteq> 0)"
| "num_truthy NegInf = True"
| "num_truthy PosInf = True"

fun truthy :: "jsval \<Rightarrow> bool" where
  "truthy Undefined = False"
| "truthy Null = False"
| "truthy (Bool b) = b"
| "truthy (Num n) = num_truthy n"
| "truthy (Str s) = (s \<noteq> [])"
| "truthy Obj = True"

text \<open>\<^verbatim>\<open>a || b\<close>: the left operand when it is truthy, else the right one.\<close>

definition js_or :: "jsval \<Rightarrow> jsval \<Rightarrow> jsval" where
  "js_or a b = (if truthy a then a else b)"

text \<open>\<^verbatim>\<open>a < b\<close> and \<^verbatim>\<open>a <= b\<close> on numbers: false as soon as one side is \<open>NaN\<close>.\<close>

fun js_lt :: "jsnum \<Rightarrow> jsnum \<Rightarrow> bool" where
  "js_lt NaN b = False"
| "js_lt a NaN = False"
| "js_lt PosInf b = False"
| "js_lt a NegInf = False"
| "js_lt NegInf b = True"
| "js_lt a PosInf = True"
| "js_lt (Fin x) (Fin y) = (x < y)"

fun js_le :: "jsnum \<Rightarrow> jsnum \<Rightarrow> bool" where
  "js_le NaN b = False"
| "js_le a NaN = False"
| "js_le NegInf b = True"
| "js_le a PosInf = True"
| "js_le PosInf b = False"
| "js_le a NegInf = False"
| "js_le (Fin x) (Fin y) = (x \<le> y)"

text \<open>
  The number inside a value. The code reads it only behind
  \<^verbatim>\<open>typeof x === 'number'\<close>, so the second equation is never reached from it.
\<close>

fun asNumber :: "jsval \<Rightarrow> jsnum" where
  "asNumber (Num n) = n"
| "asNumber v = NaN"

text \<open>The characters of a string value; read only behind a test that it is one.\<close>

fun asString :: "jsval \<Rightarrow> string" where
  "asString (Str s) = s"
| "asString v = []"

subsection \<open>Errors\<close>

text \<open>
  The module throws plain \<^verbatim>\<open>Error\<close> objects that differ by message:
  \<^item> \<open>InitializationError\<close>: \<^verbatim>\<open>No redisClient provided.\<close>
  \<^item> \<open>InvalidLockNameError\<close>: \<^verbatim>\<open>Invalid lockName provided! ...\<close>
  \<^item> \<open>InvalidOptionError f\<close>: \<^verbatim>\<open>Invalid <f> provided! ...\<close>
  \<^item> \<open>TypeError\<close>: raised by the language when a method is called on a client
    reference that is no client;
  \<^item> \<open>StoreOperationError\<close>: whatever a rejected call of the Redis client carries.
\<close>

datatype error =
    InitializationError
  | InvalidLockNameError
  | InvalidOptionError string
  | TypeError
  | StoreOperationError

subsection \<open>Options\<close>

text \<open>
  \<^verbatim>\<open>LockOptions\<close> and \<^verbatim>\<open>Partial<LockOptions>\<close> have the same three fields; in
  the partial one a field may hold any value, \<open>Undefined\<close> when it is left out.
\<close>

record 'a Options =
  retryLimit :: 'a
  retryDelay :: 'a
  ttl :: 'a

type_synonym LockOptions = "jsnum Options"
type_synonym OptionalLockOptions = "jsval Options"

definition noOptions :: OptionalLockOptions where
  "noOptions = \<lparr>retryLimit = Undefined, retryDelay = Undefined, ttl = Undefined\<rparr>"

definition packageName :: string where
  "packageName = ''redis-promise-lock''"

subsection \<open>The Redis client, the runtime and the instance\<close>

text \<open>
  The client is not part of the module: it is a parameter, three operations on a store
  state \<open>'s\<close>, each of which resolves to a value or rejects.
\<close>

record 's RedisClient =
  setNX :: "string \<Rightarrow> string \<Rightarrow> 's \<Rightarrow> (error + bool) \<times> 's"
  expire :: "string \<Rightarrow> jsnum \<Rightarrow> 's \<Rightarrow> (error + unit) \<times> 's"
  del :: "string \<Rightarrow> 's \<Rightarrow> (error + unit) \<times> 's"

text \<open>
  What the constructor is given as \<^verbatim>\<open>redisClient\<close>: a client, or some other value
  (callers without the type checker can pass \<^verbatim>\<open>undefined\<close> or \<^verbatim>\<open>null\<close>).
\<close>

datatype 's clientRef = NoClient jsval | Client "'s RedisClient"

fun ref_truthy :: "'s clientRef \<Rightarrow> bool" where
  "ref_truthy (NoClient v) = truthy v"
| "ref_truthy (Client c) = True"

fun ref_is_undefined :: "'s clientRef \<Rightarrow> bool" where
  "ref_is_undefined (NoClient v) = (v = Undefined)"
| "ref_is_undefined (Client c) = False"

text \<open>
  The rest of the world the module touches: \<^verbatim>\<open>sleep(ms)\<close> (a timer, during which
  the world goes on) and \<^verbatim>\<open>(new Date()).toISOString()\<close>, a reading of the clock.
\<close>

record 's Runtime =
  sleep :: "jsnum \<Rightarrow> 's \<Rightarrow> 's"
  dateISO :: "'s \<Rightarrow> string \<times> 's"

record 's Lock =
  client :: "'s clientRef"
  defaultRetryLimit :: jsval
  defaultRetryDelay :: jsval
  defaultTtl :: jsval

subsection \<open>\<^verbatim>\<open>getRedisKey\<close>\<close>

fun getRedisKey :: "variant \<Rightarrow> jsval \<Rightarrow> error + string" where
  "getRedisKey V1 lockName =
     (if \<not> truthy lockName \<or> typeof lockName \<noteq> TString then Inl InvalidLockNameError
      else Inr (packageName @ '':'' @ asString lockName))"
| "getRedisKey V2 lockName =
     (if typeof lockName \<noteq> TString \<or> length (asString lockName) = 0
      then Inl InvalidLockNameError
      else Inr (packageName @ '':'' @ asString lockName))"

subsection \<open>\<^verbatim>\<open>getOptions\<close>\<close>

text \<open>The three checks and the return, the same statements in both versions.\<close>

definition validated :: "OptionalLockOptions \<Rightarrow> error + LockOptions" where
  "validated options =
     (if \<not> (typeof (retryLimit options) = TNumber \<and> js_lt (Fin 0) (asNumber (retryLimit options)))
      then Inl (InvalidOptionError ''retryLimit'')
      else if \<not> (typeof (retryDelay options) = TNumber \<and> js_lt (Fin 0) (asNumber (retryDelay options)))
      then Inl (InvalidOptionError ''retryDelay'')
      else if \<not> (typeof (ttl options) = TNumber \<and> js_le (Fin 0) (asNumber (ttl options)))
      then Inl (InvalidOptionError ''ttl'')
      else Inr \<lparr>retryLimit = asNumber (retryLimit options),
                retryDelay = asNumber (retryDelay options),
                ttl = asNumber (ttl options)\<rparr>)"

fun getOptions :: "variant \<Rightarrow> 's Lock \<Rightarrow> OptionalLockOptions \<Rightarrow> error + LockOptions" where
  "getOptions V1 this lockSpecificOptions =
     validated
       \<lparr>retryLimit = js_or (retryLimit lockSpecificOptions) (defaultRetryLimit this),
        retryDelay = js_or (retryDelay lockSpecificOptions) (defaultRetryDelay this),
        ttl = js_or (ttl lockSpecificOptions) (defaultTtl this)\<rparr>"
| "getOptions V2 this lockSpecificOptions =
     validated
       \<lparr>retryLimit = (if retryLimit lockSpecificOptions \<noteq> Undefined
                      then retryLimit lockSpecificOptions else defaultRetryLimit this),
        retryDelay = (if retryDelay lockSpecificOptions \<noteq> Undefined
                      then retryDelay lockSpecificOptions else defaultRetryDelay this),
        ttl = (if ttl lockSpecificOptions \<noteq> Undefined
               then ttl lockSpecificOptions else defaultTtl this)\<rparr>"

subsection \<open>The constructor\<close>

text \<open>
  The field initialisers give the built-in defaults (10, 1000 and 3 in the first
  version, 10, 100 and 3 in the second); the constructor then overwrites them.
\<close>

definition initialFields :: "variant \<Rightarrow> 's clientRef \<Rightarrow> 's Lock" where
  "initialFields v redisClient =
     \<lparr>client = redisClient,
      defaultRetryLimit = Num (Fin 10),
      defaultRetryDelay = Num (Fin (case v of V1 \<Rightarrow> 1000 | V2 \<Rightarrow> 100)),
      defaultTtl = Num (Fin 3)\<rparr>"

fun newLock :: "variant \<Rightarrow> 's clientRef \<Rightarrow> OptionalLockOptions \<Rightarrow> error + 's Lock" where
  "newLock V1 redisClient options =
     (if \<not> ref_truthy redisClient then Inl InitializationError
      else let this = initialFields V1 redisClient in
        Inr (this\<lparr>defaultRetryLimit := js_or (retryLimit options) (defaultRetryLimit this),
                  defaultRetryDelay := js_or (retryDelay options) (defaultRetryDelay this),
                  defaultTtl := js_or (ttl options) (defaultTtl this)\<rparr>))"
| "newLock V2 redisClient options =
     (if ref_is_undefined redisClient then Inl InitializationError
      else let this = initialFields V2 redisClient in
        (case getOptions V2 this options of
           Inl e \<Rightarrow> Inl e
         | Inr defaultOptions \<Rightarrow>
             Inr (this\<lparr>defaultRetryLimit := Num (retryLimit defaultOptions),
                       defaultRetryDelay := Num (retryDelay defaultOptions),
                       defaultTtl := Num (ttl defaultOptions)\<rparr>)))"

subsection \<open>\<^verbatim>\<open>applyLock\<close> and \<^verbatim>\<open>releaseLock\<close>\<close>

text \<open>
  The test on \<^verbatim>\<open>ttl\<close> in front of \<^verbatim>\<open>expire\<close>: \<^verbatim>\<open>ttl && ...\<close> in the first
  version, \<^verbatim>\<open>ttl !== 0 && ...\<close> in the second.
\<close>

fun ttlTest :: "variant \<Rightarrow> jsnum \<Rightarrow> bool" where
  "ttlTest V1 t = num_truthy t"
| "ttlTest V2 t = (t \<noteq> Fin 0)"

text \<open>
  An \<^verbatim>\<open>await\<close> on a rejected call leaves the function at once with the error.
  Calling a method of \<^verbatim>\<open>this.client\<close> when that is no client is a \<open>TypeError\<close>.
\<close>

definition applyLock ::
  "variant \<Rightarrow> 's Lock \<Rightarrow> string \<Rightarrow> string \<Rightarrow> jsnum \<Rightarrow> 's \<Rightarrow> (error + bool) \<times> 's" where
  "applyLock v this key payload t s =
     (case client this of
        NoClient x \<Rightarrow> (Inl TypeError, s)
      | Client c \<Rightarrow>
          (case setNX c key payload s of
             (Inl e, s1) \<Rightarrow> (Inl e, s1)
           | (Inr lockApplied, s1) \<Rightarrow>
               if ttlTest v t \<and> lockApplied
               then (case expire c key t s1 of
                       (Inl e, s2) \<Rightarrow> (Inl e, s2)
                     | (Inr u, s2) \<Rightarrow> (Inr lockApplied, s2))
               else (Inr lockApplied, s1)))"

definition releaseLock :: "variant \<Rightarrow> 's Lock \<Rightarrow> jsval \<Rightarrow> 's \<Rightarrow> (error + unit) \<times> 's" where
  "releaseLock v this lockName s =
     (case getRedisKey v lockName of
        Inl e \<Rightarrow> (Inl e, s)
      | Inr key \<Rightarrow>
          (case client this of
             NoClient x \<Rightarrow> (Inl TypeError, s)
           | Client c \<Rightarrow> del c key s))"

subsection \<open>\<^verbatim>\<open>acquireLock\<close>\<close>

text \<open>
  \<^verbatim>\<open>JSON.stringify({ lockedSince: isoDate })\<close>; an ISO date has no character that JSON
  escapes.
\<close>

definition lockedSince :: "string \<Rightarrow> string" where
  \<open>lockedSince isoDate = ''{"lockedSince":"'' @ isoDate @ ''"}''\<close>

text \<open>
  \<^verbatim>\<open>counter++\<close>. The counter is a double that starts at 0 and only ever holds a
  whole number. Adding one is exact below \<open>2^53\<close>; at \<open>2^53\<close> the sum
  \<open>2^53 + 1\<close> is no double and rounds (to even) back to \<open>2^53\<close>, so from there on the
  counter stands still. Comparing two doubles is exact.
\<close>

definition maxExact :: nat where
  "maxExact = 2 ^ 53"

definition plusPlus :: "nat \<Rightarrow> nat" where
  "plusPlus counter = (if counter < maxExact then counter + 1 else counter)"

text \<open>
  The \<^verbatim>\<open>while\<close> loop, entered with the result of the first attempt and
  \<^verbatim>\<open>counter = 0\<close>. The loop need not end, so it returns an option, \<open>None\<close> for
  a run that never returns.
\<close>

partial_function (option) retryLoop ::
  "variant \<Rightarrow> 's Runtime \<Rightarrow> 's Lock \<Rightarrow> string \<Rightarrow> string \<Rightarrow> LockOptions \<Rightarrow> bool \<Rightarrow> nat \<Rightarrow> 's
     \<Rightarrow> ((error + bool) \<times> 's) option" where
  "retryLoop v rt this key payload opts lockApplied counter s =
     (if \<not> lockApplied \<and> js_lt (Fin (of_nat counter)) (retryLimit opts)
      then (case applyLock v this key payload (ttl opts) (sleep rt (retryDelay opts) s) of
              (Inl e, s2) \<Rightarrow> Some (Inl e, s2)
            | (Inr lockApplied', s2) \<Rightarrow>
                retryLoop v rt this key payload opts lockApplied' (plusPlus counter) s2)
      else Some (Inr lockApplied, s))"

definition acquireLock ::
  "variant \<Rightarrow> 's Runtime \<Rightarrow> 's Lock \<Rightarrow> jsval \<Rightarrow> OptionalLockOptions \<Rightarrow> 's
     \<Rightarrow> ((error + bool) \<times> 's) option" where
  "acquireLock v rt this lockName lockSpecificOptions s =
     (case getOptions v this lockSpecificOptions of
        Inl e \<Rightarrow> Some (Inl e, s)
      | Inr opts \<Rightarrow>
          (case getRedisKey v lockName of
             Inl e \<Rightarrow> Some (Inl e, s)
           | Inr key \<Rightarrow>
               (case dateISO rt s of
                  (isoDate, s0) \<Rightarrow>
                    (let payload = lockedSince isoDate in
                     case applyLock v this key payload (ttl opts) s0 of
                       (Inl e, s1) \<Rightarrow> Some (Inl e, s1)
                     | (Inr lockApplied, s1) \<Rightarrow>
                         retryLoop v rt this key payload opts lockApplied 0 s1))))"

text \<open>
  The same call watched for a while: \<open>acquireLockRounds n\<close> is \<^verbatim>\<open>acquireLock\<close> cut
  off when the loop would begin a round beyond its first \<open>n\<close>. The result is \<open>None\<close>
  when the call is cut off, and the state is the one reached by then. It says what a call
  has done so far, whether or not it ever returns.
\<close>

fun retryRounds ::
  "nat \<Rightarrow> variant \<Rightarrow> 's Runtime \<Rightarrow> 's Lock \<Rightarrow> string \<Rightarrow> string \<Rightarrow> LockOptions \<Rightarrow> bool \<Rightarrow> nat
     \<Rightarrow> 's \<Rightarrow> (error + bool) option \<times> 's" where
  "retryRounds 0 v rt this key payload opts lockApplied counter s =
     (if \<not> lockApplied \<and> js_lt (Fin (of_nat counter)) (retryLimit opts)
      then (None, s)
      else (Some (Inr lockApplied), s))"
| "retryRounds (Suc n) v rt this key payload opts lockApplied counter s =
     (if \<not> lockApplied \<and> js_lt (Fin (of_nat counter)) (retryLimit opts)
      then (case applyLock v this key payload (ttl opts) (sleep rt (retryDelay opts) s) of
              (Inl e, s2) \<Rightarrow> (Some (Inl e), s2)
            | (Inr lockApplied', s2) \<Rightarrow>
                retryRounds n v rt this key payload opts lockApplied' (plusPlus counter) s2)
      else (Some (Inr lockApplied), s))"

definition acquireLockRounds ::
  "nat \<Rightarrow> variant \<Rightarrow> 's Runtime \<Rightarrow> 's Lock \<Rightarrow> jsval \<Rightarrow> OptionalLockOptions \<Rightarrow> 's
     \<Rightarrow> (error + bool) option \<times> 's" where
  "acquireLockRounds n v rt this lockName lockSpecificOptions s =
     (case getOptions v this lockSpecificOptions of
        Inl e \<Rightarrow> (Some (Inl e), s)
      | Inr opts \<Rightarrow>
          (case getRedisKey v lockName of
             Inl e \<Rightarrow> (Some (Inl e), s)
           | Inr key \<Rightarrow>
               (case dateISO rt s of
                  (isoDate, s0) \<Rightarrow>
                    (let payload = lockedSince isoDate in
                     case applyLock v this key payload (ttl opts) s0 of
                       (Inl e, s1) \<Rightarrow> (Some (Inl e), s1)
                     | (Inr lockApplied, s1) \<Rightarrow>
                         retryRounds n v rt this key payload opts lockApplied 0 s1))))"

subsection \<open>A recording client\<close>

text \<open>
  A client in the manner of the test suite's \<^verbatim>\<open>jest.fn\<close> mocks: it answers from a
  script and records every call, the sleeps and the readings of the clock as well.
  \<open>setNXReplies w i\<close> is the answer to the \<open>i\<close>-th \<^verbatim>\<open>setNX\<close> call from now on;
  each call takes the head of its script. What \<^verbatim>\<open>new Date()\<close> reads is scripted by
  the number of calls recorded so far.
\<close>

datatype call =
  SetNX string string | Expire string jsnum | Del string | Sleep jsnum | NewDate

record mock =
  setNXReplies :: "nat \<Rightarrow> error + bool"
  expireReplies :: "nat \<Rightarrow> error + unit"
  delReplies :: "nat \<Rightarrow> error + unit"
  dates :: "nat \<Rightarrow> string"
  calls :: "call list"

definition mockSetNX :: "string \<Rightarrow> string \<Rightarrow> mock \<Rightarrow> (error + bool) \<times> mock" where
  "mockSetNX key payload w =
     (setNXReplies w 0,
      w\<lparr>setNXReplies := (\<lambda>i. setNXReplies w (Suc i)), calls := calls w @ [SetNX key payload]\<rparr>)"

definition mockExpire :: "string \<Rightarrow> jsnum \<Rightarrow> mock \<Rightarrow> (error + unit) \<times> mock" where
  "mockExpire key t w =
     (expireReplies w 0,
      w\<lparr>expireReplies := (\<lambda>i. expireReplies w (Suc i)), calls := calls w @ [Expire key t]\<rparr>)"

definition mockDel :: "string \<Rightarrow> mock \<Rightarrow> (error + unit) \<times> mock" where
  "mockDel key w =
     (delReplies w 0,
      w\<lparr>delReplies := (\<lambda>i. delReplies w (Suc i)), calls := calls w @ [Del key]\<rparr>)"

definition mockClient :: "mock RedisClient" where
  "mockClient = \<lparr>setNX = mockSetNX, expire = mockExpire, del = mockDel\<rparr>"

definition mockRuntime :: "mock Runtime" where
  "mockRuntime =
     \<lparr>sleep = (\<lambda>ms w. w\<lparr>calls := calls w @ [Sleep ms]\<rparr>),
      dateISO = (\<lambda>w. (dates w (length (calls w)), w\<lparr>calls := calls w @ [NewDate]\<rparr>))\<rparr>"

text \<open>A fresh mock whose store calls all succeed, \<^verbatim>\<open>setNX\<close> answering \<open>results\<close>.\<close>

definition freshMock :: "(nat \<Rightarrow> bool) \<Rightarrow> (nat \<Rightarrow> string) \<Rightarrow> mock" where
  "freshMock results clock =
     \<lparr>setNXReplies = (\<lambda>i. Inr (results i)),
      expireReplies = (\<lambda>i. Inr ()),
      delReplies = (\<lambda>i. Inr ()),
      dates = clock,
      calls = []\<rparr>"

fun isSetNX :: "call \<Rightarrow> bool" where
  "isSetNX (SetNX k p) = True"
| "isSetNX c = False"


definition attempts :: "call list \<Rightarrow> nat" where
  "attempts cs = length (filter isSetNX cs)"


subsection \<open>A key-value store\<close>

text \<open>
  Modelled from the spec: the KeyValueStore contract of its section 6 (the Redis server
  is no part of the repository). A record is a payload with an optional time to live;
  \<^verbatim>\<open>setNX\<close> creates a record only when the key is absent and tells whether it did,
  \<^verbatim>\<open>expire\<close> sets the time to live of an existing record, \<^verbatim>\<open>del\<close> removes the
  record when there is one. No call fails.
\<close>

type_synonym kvstore = "string \<rightharpoonup> string \<times> jsnum option"

definition kvClient :: "kvstore RedisClient" where
  "kvClient =
     \<lparr>setNX = (\<lambda>key payload m.
         case m key of None \<Rightarrow> (Inr True, m(key \<mapsto> (payload, None)))
                     | Some r \<Rightarrow> (Inr False, m)),
      expire = (\<lambda>key t m.
         case m key of None \<Rightarrow> (Inr (), m)
                     | Some r \<Rightarrow> (Inr (), m(key \<mapsto> (fst r, Some t)))),
      del = (\<lambda>key m. (Inr (), m(key := None)))\<rparr>"

subsection \<open>Vocabulary of the statements\<close>

text \<open>A lock name the module accepts: a string with at least one character.\<close>

fun nonEmptyString :: "jsval \<Rightarrow> bool" where
  "nonEmptyString (Str s) = (s \<noteq> [])"
| "nonEmptyString v = False"

text \<open>The recording world after one sleep and one \<^verbatim>\<open>setNX\<close> call of the loop.\<close>

definition afterRetry :: "string \<Rightarrow> string \<Rightarrow> jsnum \<Rightarrow> mock \<Rightarrow> mock" where
  "afterRetry key p d w = snd (mockSetNX key p (sleep mockRuntime d w))"

text \<open>What a run on the recording client shows: its result and the calls recorded.\<close>

definition outcome :: "('a \<times> mock) option \<Rightarrow> ('a \<times> call list) option" where
  "outcome run = map_option (\<lambda>(r, w). (r, calls w)) run"

text \<open>An instance on the recording client with the built-in defaults of a version.\<close>

definition mockLock :: "variant \<Rightarrow> mock Lock" where
  "mockLock v = initialFields v (Client mockClient)"

text \<open>The same on the key-value store.\<close>

definition kvLock :: "variant \<Rightarrow> kvstore Lock" where
  "kvLock v = initialFields v (Client kvClient)"

text \<open>The scenario of the specification: three retries, ten units apart, time to live 5.\<close>

definition beerOptions :: OptionalLockOptions where
  "beerOptions = \<lparr>retryLimit = Num (Fin 3), retryDelay = Num (Fin 10), ttl = Num (Fin 5)\<rparr>"

text \<open>A clock that reads nine seconds later from the first recorded call on.\<close>

definition tickingClock :: "nat \<Rightarrow> string" where
  "tickingClock i =
     (if i = 0 then ''2024-01-01T00:00:00.000Z'' else ''2024-01-01T00:00:09.000Z'')"

section \<open>Properties\<close>

subsection \<open>Basic facts\<close>

lemma getRedisKey_nonEmpty:
  "nonEmptyString lockName \<Longrightarrow>
     getRedisKey v lockName = Inr (packageName @ '':'' @ asString lockName)"
  by (cases v; cases lockName) auto

lemma getRedisKey_invalid:
  "\<not> nonEmptyString lockName \<Longrightarrow> getRedisKey v lockName = Inl InvalidLockNameError"
  by (cases v; cases lockName) auto

lemma validated_ranges:
  "validated options = Inr opts \<Longrightarrow>
     js_lt (Fin 0) (retryLimit opts) \<and> js_lt (Fin 0) (retryDelay opts) \<and> js_le (Fin 0) (ttl opts)"
  by (auto simp add: validated_def split: if_splits)

lemma getOptions_ranges:
  "getOptions v this lso = Inr opts \<Longrightarrow>
     js_lt (Fin 0) (retryLimit opts) \<and> js_lt (Fin 0) (retryDelay opts) \<and> js_le (Fin 0) (ttl opts)"
  by (cases v) (simp_all add: validated_ranges)

lemma ttlTest_valid: "js_le (Fin 0) t \<Longrightarrow> ttlTest v t = (t \<noteq> Fin 0)"
  by (cases v; cases t) auto

lemma mockLock_simps:
  "client (mockLock v) = Client mockClient"
  "defaultRetryLimit (mockLock v) = Num (Fin 10)"
  "defaultRetryDelay (mockLock v) = Num (Fin (case v of V1 \<Rightarrow> 1000 | V2 \<Rightarrow> 100))"
  "defaultTtl (mockLock v) = Num (Fin 3)"
  by (simp_all add: mockLock_def initialFields_def)

lemma newLock_mockLock: "newLock v (Client mockClient) noOptions = Inr (mockLock v)"
  by (cases v) (simp_all add: mockLock_def noOptions_def initialFields_def js_or_def validated_def)

lemma applyLock_mock:
  "client this = Client mockClient \<Longrightarrow>
   applyLock v this key p t w =
     (case setNXReplies w 0 of
        Inl e \<Rightarrow> (Inl e, snd (mockSetNX key p w))
      | Inr b \<Rightarrow>
          if ttlTest v t \<and> b
          then (case expireReplies w 0 of
                  Inl e \<Rightarrow> (Inl e, snd (mockExpire key t (snd (mockSetNX key p w))))
                | Inr u \<Rightarrow> (Inr b, snd (mockExpire key t (snd (mockSetNX key p w)))))
          else (Inr b, snd (mockSetNX key p w)))"
  by (simp add: applyLock_def mockClient_def mockSetNX_def mockExpire_def
      split: sum.splits prod.splits)

lemma freshMock_simps:
  "setNXReplies (freshMock results clock) i = Inr (results i)"
  "expireReplies (freshMock results clock) i = Inr ()"
  "delReplies (freshMock results clock) i = Inr ()"
  "calls (freshMock results clock) = []"
  "dates (freshMock results clock) = clock"
  "fst (dateISO mockRuntime (freshMock results clock)) = clock 0"
  by (simp_all add: freshMock_def mockRuntime_def)

lemma afterDate_simps:
  "fst (dateISO mockRuntime w) = dates w (length (calls w))"
  "setNXReplies (snd (dateISO mockRuntime w)) = setNXReplies w"
  "expireReplies (snd (dateISO mockRuntime w)) = expireReplies w"
  "calls (snd (dateISO mockRuntime w)) = calls w @ [NewDate]"
  by (simp_all add: mockRuntime_def)

lemma afterSetNX_simps:
  "setNXReplies (snd (mockSetNX key p w)) i = setNXReplies w (Suc i)"
  "expireReplies (snd (mockSetNX key p w)) = expireReplies w"
  "calls (snd (mockSetNX key p w)) = calls w @ [SetNX key p]"
  by (simp_all add: mockSetNX_def)

lemma afterExpire_simps:
  "setNXReplies (snd (mockExpire key t w)) = setNXReplies w"
  "calls (snd (mockExpire key t w)) = calls w @ [Expire key t]"
  by (simp_all add: mockExpire_def)

subsection \<open>Key derivation\<close>

text \<open>
  C5. For a lock name that is a non-empty string, \<^verbatim>\<open>getRedisKey\<close> returns the
  constant \<^verbatim>\<open>redis-promise-lock\<close>, a colon and the name; for every other value
  (missing, empty, not a string) it fails with the lock-name error. Both versions agree,
  and the result is a function of the name alone, so repeated calls give equal strings.
\<close>

theorem getRedisKey_prefixes_valid_names:
  "(nonEmptyString lockName \<longrightarrow>
      getRedisKey v lockName = Inr (''redis-promise-lock:'' @ asString lockName)) \<and>
   (\<not> nonEmptyString lockName \<longrightarrow> getRedisKey v lockName = Inl InvalidLockNameError)"
  using getRedisKey_nonEmpty [of lockName v] getRedisKey_invalid [of lockName v]
  by (simp add: packageName_def)

theorem getRedisKey_prefixes_valid_names_witness:
  "nonEmptyString (Str ''beer'') \<and>
   getRedisKey V1 (Str ''beer'') = Inr ''redis-promise-lock:beer'' \<and>
   getRedisKey V2 (Str ''beer'') = Inr ''redis-promise-lock:beer'' \<and>
   \<not> nonEmptyString (Num (Fin 6969)) \<and>
   getRedisKey V1 (Num (Fin 6969)) = Inl InvalidLockNameError \<and>
   \<not> nonEmptyString (Str '''') \<and>
   getRedisKey V2 (Str '''') = Inl InvalidLockNameError \<and>
   \<not> nonEmptyString Undefined \<and>
   getRedisKey V2 Undefined = Inl InvalidLockNameError"
  using getRedisKey_prefixes_valid_names [of "Str ''beer''" V1]
    getRedisKey_prefixes_valid_names [of "Str ''beer''" V2]
    getRedisKey_prefixes_valid_names [of "Num (Fin 6969)" V1]
    getRedisKey_prefixes_valid_names [of "Str ''''" V2]
    getRedisKey_prefixes_valid_names [of Undefined V2]
  by simp

subsection \<open>Option resolution\<close>

text \<open>What the three checks accept, and that they report the first field that fails.\<close>

lemma validated_accepts_iff:
  "(\<exists>opts. validated options = Inr opts) \<longleftrightarrow>
     (typeof (retryLimit options) = TNumber \<and> js_lt (Fin 0) (asNumber (retryLimit options))) \<and>
     (typeof (retryDelay options) = TNumber \<and> js_lt (Fin 0) (asNumber (retryDelay options))) \<and>
     (typeof (ttl options) = TNumber \<and> js_le (Fin 0) (asNumber (ttl options)))"
  by (auto simp add: validated_def)

lemma validated_reports_first_failure:
  "validated options = Inl e \<longleftrightarrow>
     (e = InvalidOptionError ''retryLimit'' \<and>
        \<not> (typeof (retryLimit options) = TNumber \<and> js_lt (Fin 0) (asNumber (retryLimit options)))) \<or>
     (e = InvalidOptionError ''retryDelay'' \<and>
        (typeof (retryLimit options) = TNumber \<and> js_lt (Fin 0) (asNumber (retryLimit options))) \<and>
        \<not> (typeof (retryDelay options) = TNumber \<and> js_lt (Fin 0) (asNumber (retryDelay options)))) \<or>
     (e = InvalidOptionError ''ttl'' \<and>
        (typeof (retryLimit options) = TNumber \<and> js_lt (Fin 0) (asNumber (retryLimit options))) \<and>
        (typeof (retryDelay options) = TNumber \<and> js_lt (Fin 0) (asNumber (retryDelay options))) \<and>
        \<not> (typeof (ttl options) = TNumber \<and> js_le (Fin 0) (asNumber (ttl options))))"
  by (auto simp add: validated_def)

lemma validated_keeps_numbers:
  "validated options = Inr opts \<Longrightarrow>
     retryLimit options = Num (retryLimit opts) \<and> retryDelay options = Num (retryDelay opts) \<and>
     ttl options = Num (ttl opts)"
  by (cases "retryLimit options"; cases "retryDelay options"; cases "ttl options")
     (auto simp add: validated_def split: if_splits)

text \<open>
  The second version keeps every supplied field, zero included, and takes the
  instance default for every field left out.
\<close>

lemma getOptions_V2_keeps_supplied:
  assumes "getOptions V2 this lockSpecificOptions = Inr opts"
  shows "Num (retryLimit opts) =
           (if retryLimit lockSpecificOptions \<noteq> Undefined then retryLimit lockSpecificOptions
            else defaultRetryLimit this) \<and>
         Num (retryDelay opts) =
           (if retryDelay lockSpecificOptions \<noteq> Undefined then retryDelay lockSpecificOptions
            else defaultRetryDelay this) \<and>
         Num (ttl opts) =
           (if ttl lockSpecificOptions \<noteq> Undefined then ttl lockSpecificOptions
            else defaultTtl this)"
  using validated_keeps_numbers [OF assms [simplified]] by simp

lemma getOptions_V2_zero_ttl:
  "getOptions V2 (mockLock V2) (noOptions\<lparr>ttl := Num (Fin 0)\<rparr>) =
     Inr \<lparr>retryLimit = Fin 10, retryDelay = Fin 100, ttl = Fin 0\<rparr>"
  by (simp add: noOptions_def mockLock_simps validated_def)

lemma getOptions_V2_rejects:
  "getOptions V2 (mockLock V2) (noOptions\<lparr>retryLimit := Num (Fin 0)\<rparr>) =
     Inl (InvalidOptionError ''retryLimit'')"
  "getOptions V2 (mockLock V2) (noOptions\<lparr>retryLimit := Num (Fin (- 1))\<rparr>) =
     Inl (InvalidOptionError ''retryLimit'')"
  "getOptions V2 (mockLock V2) (noOptions\<lparr>retryLimit := Str ''NaN''\<rparr>) =
     Inl (InvalidOptionError ''retryLimit'')"
  "getOptions V2 (mockLock V2) (noOptions\<lparr>retryDelay := Num (Fin 0)\<rparr>) =
     Inl (InvalidOptionError ''retryDelay'')"
  "getOptions V2 (mockLock V2) (noOptions\<lparr>ttl := Num (Fin (- 1))\<rparr>) =
     Inl (InvalidOptionError ''ttl'')"
  by (simp_all add: noOptions_def mockLock_simps validated_def)

lemma getOptions_V1_rejects_negative:
  "getOptions V1 (mockLock V1) (noOptions\<lparr>retryLimit := Num (Fin (- 1))\<rparr>) =
     Inl (InvalidOptionError ''retryLimit'')"
  "getOptions V1 (mockLock V1) (noOptions\<lparr>ttl := Num (Fin (- 1))\<rparr>) =
     Inl (InvalidOptionError ''ttl'')"
  by (simp_all add: noOptions_def mockLock_simps validated_def js_or_def)

text \<open>
  C3. A supplied option is to be kept, a time to live of 0 included. The first version
  does not: on a fresh instance, \<^verbatim>\<open>getOptions({ttl: 0})\<close> merges with \<^verbatim>\<open>||\<close>, 0
  is falsy, and the result carries the default 3.
\<close>

theorem getOptions_V1_replaces_zero_ttl:
  "newLock V1 (Client mockClient) noOptions = Inr (mockLock V1) \<and>
   getOptions V1 (mockLock V1) (noOptions\<lparr>ttl := Num (Fin 0)\<rparr>) =
     Inr \<lparr>retryLimit = Fin 10, retryDelay = Fin 1000, ttl = Fin 3\<rparr>"
  by (simp add: noOptions_def mockLock_def initialFields_def validated_def js_or_def)

text \<open>
  C4. A retry delay or retry limit of 0 is to be refused. The first version does not:
  \<^verbatim>\<open>getOptions({retryDelay: 0})\<close> and \<^verbatim>\<open>getOptions({retryLimit: 0})\<close> put the
  default in the place of the 0 and succeed.
\<close>

theorem getOptions_V1_accepts_zero_retryDelay:
  "getOptions V1 (mockLock V1) (noOptions\<lparr>retryDelay := Num (Fin 0)\<rparr>) =
     Inr \<lparr>retryLimit = Fin 10, retryDelay = Fin 1000, ttl = Fin 3\<rparr> \<and>
   getOptions V1 (mockLock V1) (noOptions\<lparr>retryLimit := Num (Fin 0)\<rparr>) =
     Inr \<lparr>retryLimit = Fin 10, retryDelay = Fin 1000, ttl = Fin 3\<rparr>"
  by (simp add: noOptions_def mockLock_simps validated_def js_or_def)

subsection \<open>Construction\<close>

lemma newLock_V1_needs_truthy_client:
  "newLock V1 (NoClient Undefined) options = Inl InitializationError"
  "newLock V1 (NoClient Null) options = Inl InitializationError"
  by simp_all

lemma newLock_V2_needs_defined_client:
  "newLock V2 (NoClient Undefined) options = Inl InitializationError"
  by simp

lemma newLock_V2_validates:
  "newLock V2 (Client c) options = Inl e \<longleftrightarrow>
     getOptions V2 (initialFields V2 (Client c)) options = Inl e"
  by (simp add: Let_def split: sum.splits)

text \<open>
  C7. Construction is to fail on a missing or null client and on invalid options. The
  second version accepts \<^verbatim>\<open>null\<close> (it compares with \<^verbatim>\<open>undefined\<close> only; the
  first use of the client then raises a type error), and the first version stores
  options unvalidated (a retry limit of \<open>-1\<close> becomes the default, and only a later
  \<^verbatim>\<open>getOptions\<close> refuses it).
\<close>

theorem newLock_accepts_null_and_invalid:
  "newLock V2 (NoClient Null) noOptions = Inr (initialFields V2 (NoClient Null)) \<and>
   fst (applyLock V2 (initialFields V2 (NoClient Null)) key payload t s) = Inl TypeError \<and>
   newLock V1 (Client mockClient) (noOptions\<lparr>retryLimit := Num (Fin (- 1))\<rparr>) =
     Inr ((mockLock V1)\<lparr>defaultRetryLimit := Num (Fin (- 1))\<rparr>) \<and>
   getOptions V1 ((mockLock V1)\<lparr>defaultRetryLimit := Num (Fin (- 1))\<rparr>) noOptions =
     Inl (InvalidOptionError ''retryLimit'')"
  by (simp add: noOptions_def mockLock_def initialFields_def validated_def js_or_def
      applyLock_def)

subsection \<open>Invalid lock names\<close>

text \<open>
  C8. For a lock name that is missing, empty or no string, \<^verbatim>\<open>acquireLock\<close> (given
  options that pass validation) and \<^verbatim>\<open>releaseLock\<close> fail with the lock-name error
  and leave the world as it was: no call reaches the store, whatever the client is.
\<close>

theorem invalid_name_no_store_call:
  assumes "\<not> nonEmptyString lockName"
  shows "(getOptions v this lockSpecificOptions = Inr opts \<longrightarrow>
            acquireLock v rt this lockName lockSpecificOptions s =
              Some (Inl InvalidLockNameError, s)) \<and>
         releaseLock v this lockName s = (Inl InvalidLockNameError, s)"
  using getRedisKey_invalid [OF assms, of v]
  by (simp add: acquireLock_def releaseLock_def)

theorem invalid_name_no_store_call_witness:
  "\<not> nonEmptyString Undefined \<and>
   getOptions V2 (mockLock V2) noOptions =
     Inr \<lparr>retryLimit = Fin 10, retryDelay = Fin 100, ttl = Fin 3\<rparr> \<and>
   acquireLock V2 mockRuntime (mockLock V2) Undefined noOptions (freshMock (\<lambda>i. True) (\<lambda>i. [])) =
     Some (Inl InvalidLockNameError, freshMock (\<lambda>i. True) (\<lambda>i. [])) \<and>
   releaseLock V2 (mockLock V2) Undefined (freshMock (\<lambda>i. True) (\<lambda>i. [])) =
     (Inl InvalidLockNameError, freshMock (\<lambda>i. True) (\<lambda>i. [])) \<and>
   calls (freshMock (\<lambda>i. True) (\<lambda>i. [])) = []"
  using invalid_name_no_store_call
    [where lockName = Undefined and v = V2 and this = "mockLock V2"
       and lockSpecificOptions = noOptions and rt = mockRuntime
       and opts = "\<lparr>retryLimit = Fin 10, retryDelay = Fin 100, ttl = Fin 3\<rparr>"
       and s = "freshMock (\<lambda>i. True) (\<lambda>i. [])"]
  by (simp add: noOptions_def mockLock_simps validated_def freshMock_simps)

subsection \<open>Release\<close>

text \<open>
  C6. For a lock name that is a non-empty string, \<^verbatim>\<open>releaseLock\<close> makes one store
  call and no other: \<^verbatim>\<open>del\<close> with the key \<^verbatim>\<open>getRedisKey\<close> gives, whoever holds the
  lock; its result is the store's answer. On the key-value store the record is gone
  afterwards, releasing an absent key changes nothing and fails not, and a second release
  gives what the first gave.
\<close>

theorem releaseLock_deletes_key:
  assumes "nonEmptyString lockName"
  shows "\<exists>key. getRedisKey v lockName = Inr key \<and>
     (client thisM = Client mockClient \<longrightarrow>
        fst (releaseLock v thisM lockName w) = delReplies w 0 \<and>
        calls (snd (releaseLock v thisM lockName w)) = calls w @ [Del key]) \<and>
     (client thisK = Client kvClient \<longrightarrow>
        releaseLock v thisK lockName m = (Inr (), m(key := None)) \<and>
        (m key = None \<longrightarrow> releaseLock v thisK lockName m = (Inr (), m)) \<and>
        releaseLock v thisK lockName (snd (releaseLock v thisK lockName m)) =
          releaseLock v thisK lockName m)"
  using getRedisKey_nonEmpty [OF assms, of v]
  by (auto simp add: releaseLock_def mockClient_def mockDel_def kvClient_def)

theorem releaseLock_deletes_key_witness:
  "nonEmptyString (Str ''gunna'') \<and>
   getRedisKey V2 (Str ''gunna'') = Inr ''redis-promise-lock:gunna'' \<and>
   client (mockLock V2) = Client mockClient \<and>
   fst (releaseLock V2 (mockLock V2) (Str ''gunna'') (freshMock (\<lambda>i. True) (\<lambda>i. []))) = Inr () \<and>
   calls (snd (releaseLock V2 (mockLock V2) (Str ''gunna'') (freshMock (\<lambda>i. True) (\<lambda>i. [])))) =
     [Del ''redis-promise-lock:gunna''] \<and>
   client (kvLock V2) = Client kvClient \<and>
   releaseLock V2 (kvLock V2) (Str ''gunna'')
     [''redis-promise-lock:gunna'' \<mapsto> (''held'', Some (Fin 3))] = (Inr (), Map.empty) \<and>
   releaseLock V2 (kvLock V2) (Str ''gunna'') Map.empty = (Inr (), Map.empty)"
  using releaseLock_deletes_key
    [where lockName = "Str ''gunna''" and v = V2 and thisM = "mockLock V2"
       and w = "freshMock (\<lambda>i. True) (\<lambda>i. [])" and thisK = "kvLock V2"
       and m = "[''redis-promise-lock:gunna'' \<mapsto> (''held'', Some (Fin 3))]"]
    releaseLock_deletes_key
    [where lockName = "Str ''gunna''" and v = V2 and thisM = "mockLock V2"
       and w = "freshMock (\<lambda>i. True) (\<lambda>i. [])" and thisK = "kvLock V2" and m = Map.empty]
  by (simp add: packageName_def mockLock_simps kvLock_def initialFields_def freshMock_simps)

subsection \<open>A single attempt\<close>

text \<open>
  No time to live that \<^verbatim>\<open>getOptions\<close> lets through is \<open>NaN\<close>. In the first version
  \<^verbatim>\<open>applyLock\<close> is private and \<^verbatim>\<open>acquireLock\<close>, its only caller, hands it the
  time to live \<^verbatim>\<open>getOptions\<close> returned; there the truthiness test \<^verbatim>\<open>ttl && ...\<close>
  and the comparison \<^verbatim>\<open>ttl !== 0\<close> of the second version agree.
\<close>

lemma getOptions_ttl_not_NaN: "getOptions v this lso = Inr opts \<Longrightarrow> ttl opts \<noteq> NaN"
  using getOptions_ranges [of v this lso opts] by auto

lemma ttlTest_not_NaN: "v = V2 \<or> t \<noteq> NaN \<Longrightarrow> ttlTest v t = (t \<noteq> Fin 0)"
  by (cases v; cases t) auto

text \<open>A failing \<^verbatim>\<open>setNX\<close> or \<^verbatim>\<open>expire\<close> call ends the attempt with its error.\<close>

lemma applyLock_store_failure:
  assumes "client this = Client mockClient"
  shows "setNXReplies w 0 = Inl e \<Longrightarrow> fst (applyLock v this key payload t w) = Inl e"
    and "setNXReplies w 0 = Inr True \<Longrightarrow> ttlTest v t \<Longrightarrow> expireReplies w 0 = Inl e \<Longrightarrow>
           fst (applyLock v this key payload t w) = Inl e"
  by (simp_all add: applyLock_mock [OF assms])

text \<open>
  C2. On the recording client, with a store whose calls succeed and \<^verbatim>\<open>setNX\<close>
  answering \<open>b\<close>, for every key, payload and time to live that can reach it (any at all
  in the second version, any but \<open>NaN\<close> in the first), \<^verbatim>\<open>applyLock\<close> calls
  \<^verbatim>\<open>setNX\<close> once and then \<^verbatim>\<open>expire\<close> with the same key and the time to live,
  once, exactly when \<open>b\<close> holds and the time to live is not 0; when \<open>b\<close> is false or
  the time to live is 0 it makes no \<^verbatim>\<open>expire\<close> call. In every case it returns \<open>b\<close>.
\<close>

theorem applyLock_expire_once:
  assumes "client this = Client mockClient"
    and "setNXReplies w 0 = Inr b"
    and "expireReplies w 0 = Inr ()"
    and "v = V2 \<or> t \<noteq> NaN"
  shows "calls (snd (applyLock v this key payload t w)) =
           calls w @ SetNX key payload # (if b \<and> t \<noteq> Fin 0 then [Expire key t] else []) \<and>
         fst (applyLock v this key payload t w) = Inr b"
  using assms(2,3) ttlTest_not_NaN [OF assms(4)]
  by (simp add: applyLock_mock [OF assms(1)] mockSetNX_def mockExpire_def)

theorem applyLock_expire_once_witness:
  "client (mockLock V1) = Client mockClient \<and>
   setNXReplies (freshMock (\<lambda>i. True) (\<lambda>i. [])) 0 = Inr True \<and>
   expireReplies (freshMock (\<lambda>i. True) (\<lambda>i. [])) 0 = Inr () \<and>
   Fin 69 \<noteq> NaN \<and>
   calls (snd (applyLock V1 (mockLock V1) ''beer'' ''tasty'' (Fin 69)
                 (freshMock (\<lambda>i. True) (\<lambda>i. [])))) =
     [SetNX ''beer'' ''tasty'', Expire ''beer'' (Fin 69)] \<and>
   fst (applyLock V1 (mockLock V1) ''beer'' ''tasty'' (Fin 69)
          (freshMock (\<lambda>i. True) (\<lambda>i. []))) = Inr True \<and>
   calls (snd (applyLock V1 (mockLock V1) ''beer'' ''tasty'' (Fin 0)
                 (freshMock (\<lambda>i. True) (\<lambda>i. [])))) = [SetNX ''beer'' ''tasty''] \<and>
   fst (applyLock V1 (mockLock V1) ''beer'' ''tasty'' (Fin 0)
          (freshMock (\<lambda>i. True) (\<lambda>i. []))) = Inr True \<and>
   setNXReplies (freshMock (\<lambda>i. False) (\<lambda>i. [])) 0 = Inr False \<and>
   expireReplies (freshMock (\<lambda>i. False) (\<lambda>i. [])) 0 = Inr () \<and>
   calls (snd (applyLock V2 (mockLock V2) ''beer'' ''tasty'' (Fin 1337)
                 (freshMock (\<lambda>i. False) (\<lambda>i. [])))) = [SetNX ''beer'' ''tasty''] \<and>
   fst (applyLock V2 (mockLock V2) ''beer'' ''tasty'' (Fin 1337)
          (freshMock (\<lambda>i. False) (\<lambda>i. []))) = Inr False"
  using applyLock_expire_once
    [where this = "mockLock V1" and w = "freshMock (\<lambda>i. True) (\<lambda>i. [])" and b = True
       and v = V1 and t = "Fin 69" and key = "''beer''" and payload = "''tasty''"]
    applyLock_expire_once
    [where this = "mockLock V1" and w = "freshMock (\<lambda>i. True) (\<lambda>i. [])" and b = True
       and v = V1 and t = "Fin 0" and key = "''beer''" and payload = "''tasty''"]
    applyLock_expire_once
    [where this = "mockLock V2" and w = "freshMock (\<lambda>i. False) (\<lambda>i. [])" and b = False
       and v = V2 and t = "Fin 1337" and key = "''beer''" and payload = "''tasty''"]
  by (simp add: mockLock_simps freshMock_simps)

subsection \<open>The retry loop on the recording client\<close>

lemma js_lt_of_nat: "js_lt (Fin (of_nat c)) (Fin r) = (c < nat \<lceil>r\<rceil>)"
proof -
  have "(of_nat c < r) = (int c < \<lceil>r\<rceil>)"
    by (simp add: less_ceiling_iff)
  then show ?thesis by (simp add: zless_nat_eq_int_zless)
qed

lemma plusPlus_below: "c < maxExact \<Longrightarrow> plusPlus c = Suc c"
  by (simp add: plusPlus_def)

lemma plusPlus_le: "c \<le> maxExact \<Longrightarrow> plusPlus c \<le> maxExact"
  by (simp add: plusPlus_def)

lemma afterRetry_simps:
  "setNXReplies (afterRetry key p d w) i = setNXReplies w (Suc i)"
  "expireReplies (afterRetry key p d w) = expireReplies w"
  "calls (afterRetry key p d w) = calls w @ [Sleep d, SetNX key p]"
  by (simp_all add: afterRetry_def mockSetNX_def mockRuntime_def)

lemma attempts_append: "attempts (xs @ ys) = attempts xs + attempts ys"
  by (simp add: attempts_def)



lemma outcome_Some: "run = Some (r, w) \<Longrightarrow> outcome run = Some (r, calls w)"
  by (simp add: outcome_def)

lemma acquireLock_first_attempt:
  assumes "getOptions v this lso = Inr opts" and "getRedisKey v lockName = Inr key"
  shows "acquireLock v rt this lockName lso s =
     (case applyLock v this key (lockedSince (fst (dateISO rt s))) (ttl opts)
             (snd (dateISO rt s)) of
        (Inl e, s1) \<Rightarrow> Some (Inl e, s1)
      | (Inr b, s1) \<Rightarrow>
          retryLoop v rt this key (lockedSince (fst (dateISO rt s))) opts b 0 s1)"
  using assms by (simp add: acquireLock_def Let_def case_prod_beta)

lemma retryLoop_applied: "retryLoop v rt this key p opts True c s = Some (Inr True, s)"
  by (subst retryLoop.simps) simp

text \<open>A failed attempt with retries left: the loop goes round once.\<close>

lemma retryLoop_failed_step:
  assumes "client this = Client mockClient" and "setNXReplies w 0 = Inr False"
    and "js_lt (Fin (of_nat c)) (retryLimit opts)"
  shows "retryLoop v mockRuntime this key p opts False c w =
         retryLoop v mockRuntime this key p opts False (plusPlus c)
           (afterRetry key p (retryDelay opts) w)"
  apply (subst retryLoop.simps)
  using assms
  apply (simp add: applyLock_mock afterRetry_def mockSetNX_def mockRuntime_def)
  done

lemma retryLoop_failed_step_exact:
  assumes "client this = Client mockClient" and "setNXReplies w 0 = Inr False"
    and "js_lt (Fin (of_nat c)) (retryLimit opts)" and "c < maxExact"
  shows "retryLoop v mockRuntime this key p opts False c w =
         retryLoop v mockRuntime this key p opts False (Suc c)
           (afterRetry key p (retryDelay opts) w)"
  using retryLoop_failed_step [OF assms(1-3)] plusPlus_below [OF assms(4)] by simp

lemma retryLoop_success_step:
  assumes "client this = Client mockClient" and "setNXReplies w 0 = Inr True"
    and "js_lt (Fin (of_nat c)) (retryLimit opts)"
    and "ttlTest v (ttl opts) \<longrightarrow> expireReplies w 0 = Inr ()"
  shows "\<exists>w'. retryLoop v mockRuntime this key p opts False c w = Some (Inr True, w') \<and>
           calls w' = calls w @ [Sleep (retryDelay opts), SetNX key p] @
                      (if ttlTest v (ttl opts) then [Expire key (ttl opts)] else [])"
  apply (subst retryLoop.simps)
  using assms
  apply (simp add: applyLock_mock mockSetNX_def mockExpire_def mockRuntime_def retryLoop_applied)
  done

lemma retryLoop_success:
  assumes "client this = Client mockClient"
    and "retryLimit opts = Fin r"
    and "ttlTest v (ttl opts) \<longrightarrow> expireReplies w 0 = Inr ()"
    and "\<forall>i<M. setNXReplies w i = Inr False"
    and "setNXReplies w M = Inr True"
    and "c + M < nat \<lceil>r\<rceil>"
    and small: "nat \<lceil>r\<rceil> \<le> maxExact"
  shows "\<exists>w'. retryLoop v mockRuntime this key p opts False c w = Some (Inr True, w') \<and>
           calls w' = calls w @ concat (replicate (Suc M) [Sleep (retryDelay opts), SetNX key p]) @
                      (if ttlTest v (ttl opts) then [Expire key (ttl opts)] else [])"
  using assms(3-6)
proof (induction M arbitrary: w c)
  case 0
  have "js_lt (Fin (of_nat c)) (retryLimit opts)"
    using 0(4) assms(2) js_lt_of_nat [of c r] by simp
  from retryLoop_success_step [OF assms(1) _ this 0(1), of key p] 0(3)
  show ?case by simp
next
  case (Suc M)
  let ?w = "afterRetry key p (retryDelay opts) w"
  have lt: "js_lt (Fin (of_nat c)) (retryLimit opts)"
    using Suc(5) assms(2) js_lt_of_nat [of c r] by simp
  have f0: "setNXReplies w 0 = Inr False"
    using Suc(3) by simp
  have cm: "c < maxExact" using Suc(5) small by simp
  have "\<exists>w'. retryLoop v mockRuntime this key p opts False (Suc c) ?w = Some (Inr True, w') \<and>
           calls w' = calls ?w @ concat (replicate (Suc M) [Sleep (retryDelay opts), SetNX key p]) @
                      (if ttlTest v (ttl opts) then [Expire key (ttl opts)] else [])"
    using Suc(2-5) by (intro Suc(1)) (simp_all add: afterRetry_simps)
  then show ?case
    by (simp add: retryLoop_failed_step_exact [OF assms(1) f0 lt cm] afterRetry_simps)
qed

lemma retryLoop_exhausted:
  assumes "client this = Client mockClient"
    and "retryLimit opts = Fin r"
    and "\<forall>i<nat \<lceil>r\<rceil> - c. setNXReplies w i = Inr False"
    and small: "nat \<lceil>r\<rceil> \<le> maxExact"
  shows "\<exists>w'. retryLoop v mockRuntime this key p opts False c w = Some (Inr False, w') \<and>
           calls w' = calls w @
             concat (replicate (nat \<lceil>r\<rceil> - c) [Sleep (retryDelay opts), SetNX key p])"
  using assms(3)
proof (induction "nat \<lceil>r\<rceil> - c" arbitrary: w c)
  case 0
  then have "\<not> js_lt (Fin (of_nat c)) (retryLimit opts)"
    using assms(2) js_lt_of_nat [of c r] by simp
  then show ?case using 0(1) by (subst retryLoop.simps) simp
next
  case (Suc k)
  let ?w = "afterRetry key p (retryDelay opts) w"
  have lt: "js_lt (Fin (of_nat c)) (retryLimit opts)"
    using Suc(2) assms(2) js_lt_of_nat [of c r] by simp
  have f0: "setNXReplies w 0 = Inr False"
    using Suc(2,3) by simp
  have k: "k = nat \<lceil>r\<rceil> - Suc c" using Suc(2) by simp
  have cm: "c < maxExact" using Suc(2) small by simp
  have "\<forall>i<nat \<lceil>r\<rceil> - Suc c. setNXReplies ?w i = Inr False"
    using Suc(2,3) by (simp add: afterRetry_simps)
  from Suc(1) [OF k this] obtain w' where
    "retryLoop v mockRuntime this key p opts False (Suc c) ?w = Some (Inr False, w')"
    "calls w' = calls ?w @
       concat (replicate (nat \<lceil>r\<rceil> - Suc c) [Sleep (retryDelay opts), SetNX key p])"
    by blast
  moreover have "nat \<lceil>r\<rceil> - c = Suc (nat \<lceil>r\<rceil> - Suc c)" using Suc(2) by simp
  ultimately show ?case
    by (simp add: retryLoop_failed_step_exact [OF assms(1) f0 lt cm] afterRetry_simps)
qed

text \<open>The whole call on a fresh recording client whose store calls succeed.\<close>

lemma acquireLock_succeeds_after:
  assumes "client this = Client mockClient"
    and "getOptions v this lso = Inr opts"
    and "getRedisKey v lockName = Inr key"
    and "retryLimit opts = Fin r"
    and "N \<le> nat \<lceil>r\<rceil>" and "results N" and "\<forall>i<N. \<not> results i"
    and small: "nat \<lceil>r\<rceil> \<le> maxExact"
  shows "\<exists>w'. acquireLock v mockRuntime this lockName lso (freshMock results clock) =
                 Some (Inr True, w') \<and>
           calls w' = NewDate # SetNX key (lockedSince (clock 0)) #
             concat (replicate N [Sleep (retryDelay opts), SetNX key (lockedSince (clock 0))]) @
             (if ttl opts \<noteq> Fin 0 then [Expire key (ttl opts)] else [])"
proof -
  let ?W = "snd (dateISO mockRuntime (freshMock results clock))"
  let ?p = "lockedSince (clock 0)"
  have tt: "ttlTest v (ttl opts) = (ttl opts \<noteq> Fin 0)"
    using getOptions_ranges [OF assms(2)] by (simp add: ttlTest_valid)
  show ?thesis
  proof (cases N)
    case 0
    then have "results 0" using assms(6) by simp
    then show ?thesis
      using 0 tt
      by (simp add: acquireLock_first_attempt [OF assms(2,3)] applyLock_mock [OF assms(1)]
          freshMock_simps afterDate_simps retryLoop_applied afterSetNX_simps afterExpire_simps)
  next
    case (Suc M)
    let ?w1 = "snd (mockSetNX key ?p ?W)"
    have r0: "\<not> results 0" using assms(7) Suc by simp
    have "\<exists>w'. retryLoop v mockRuntime this key ?p opts False 0 ?w1 = Some (Inr True, w') \<and>
           calls w' = calls ?w1 @
             concat (replicate (Suc M) [Sleep (retryDelay opts), SetNX key ?p]) @
             (if ttlTest v (ttl opts) then [Expire key (ttl opts)] else [])"
      using assms(5,6,7) Suc small
      by (intro retryLoop_success [OF assms(1,4)])
         (simp_all add: afterSetNX_simps afterDate_simps freshMock_simps)
    then show ?thesis
      using r0 Suc tt
      by (simp add: acquireLock_first_attempt [OF assms(2,3)] applyLock_mock [OF assms(1)]
          freshMock_simps afterDate_simps afterSetNX_simps)
  qed
qed

lemma acquireLock_exhausts:
  assumes "client this = Client mockClient"
    and "getOptions v this lso = Inr opts"
    and "getRedisKey v lockName = Inr key"
    and "retryLimit opts = Fin r"
    and "\<forall>i\<le>nat \<lceil>r\<rceil>. \<not> results i"
    and small: "nat \<lceil>r\<rceil> \<le> maxExact"
  shows "\<exists>w'. acquireLock v mockRuntime this lockName lso (freshMock results clock) =
                 Some (Inr False, w') \<and>
           calls w' = NewDate # SetNX key (lockedSince (clock 0)) #
             concat (replicate (nat \<lceil>r\<rceil>)
               [Sleep (retryDelay opts), SetNX key (lockedSince (clock 0))])"
proof -
  let ?W = "snd (dateISO mockRuntime (freshMock results clock))"
  let ?p = "lockedSince (clock 0)"
  let ?w1 = "snd (mockSetNX key ?p ?W)"
  have r0: "\<not> results 0" using assms(5) by simp
  have "\<forall>i<nat \<lceil>r\<rceil> - 0. setNXReplies ?w1 i = Inr False"
    using assms(5) by (simp add: afterSetNX_simps afterDate_simps freshMock_simps)
  from retryLoop_exhausted [OF assms(1,4) this small, of v key ?p]
  show ?thesis
    using r0
    by (simp add: acquireLock_first_attempt [OF assms(2,3)] applyLock_mock [OF assms(1)]
          freshMock_simps afterDate_simps afterSetNX_simps)
qed

text \<open>
  With a retry limit above every value the counter can take, and a store that always
  answers false, no return.
\<close>

lemma retryLoop_diverges_aux:
  assumes "retryLoop v rt this key p opts b c w = Some y"
  shows "\<not> (rt = mockRuntime \<and> client this = Client mockClient \<and>
            (\<forall>k\<le>maxExact. js_lt (Fin (of_nat k)) (retryLimit opts)) \<and> c \<le> maxExact \<and>
            \<not> b \<and> (\<forall>i. setNXReplies w i = Inr False))"
proof (rule retryLoop.raw_induct
    [where P = "\<lambda>v rt this key p opts b c w y.
       \<not> (rt = mockRuntime \<and> client this = Client mockClient \<and>
            (\<forall>k\<le>maxExact. js_lt (Fin (of_nat k)) (retryLimit opts)) \<and> c \<le> maxExact \<and>
            \<not> b \<and> (\<forall>i. setNXReplies w i = Inr False))", OF _ assms])
  fix f :: "variant \<Rightarrow> mock Runtime \<Rightarrow> mock Lock \<Rightarrow> string \<Rightarrow> string \<Rightarrow> LockOptions
     \<Rightarrow> bool \<Rightarrow> nat \<Rightarrow> mock \<Rightarrow> ((error + bool) \<times> mock) option"
  fix v rt this key p opts b c w y
  assume IH: "\<And>v rt this key p opts b c w y. f v rt this key p opts b c w = Some y \<Longrightarrow>
     \<not> (rt = mockRuntime \<and> client this = Client mockClient \<and>
          (\<forall>k\<le>maxExact. js_lt (Fin (of_nat k)) (retryLimit opts)) \<and> c \<le> maxExact \<and>
          \<not> b \<and> (\<forall>i. setNXReplies w i = Inr False))"
  assume body: "(if \<not> b \<and> js_lt (Fin (of_nat c)) (retryLimit opts)
      then (case applyLock v this key p (ttl opts) (sleep rt (retryDelay opts) w) of
              (Inl e, s2) \<Rightarrow> Some (Inl e, s2)
            | (Inr lockApplied', s2) \<Rightarrow> f v rt this key p opts lockApplied' (plusPlus c) s2)
      else Some (Inr b, w)) = Some y"
  show "\<not> (rt = mockRuntime \<and> client this = Client mockClient \<and>
            (\<forall>k\<le>maxExact. js_lt (Fin (of_nat k)) (retryLimit opts)) \<and> c \<le> maxExact \<and>
            \<not> b \<and> (\<forall>i. setNXReplies w i = Inr False))"
  proof
    assume a: "rt = mockRuntime \<and> client this = Client mockClient \<and>
            (\<forall>k\<le>maxExact. js_lt (Fin (of_nat k)) (retryLimit opts)) \<and> c \<le> maxExact \<and>
            \<not> b \<and> (\<forall>i. setNXReplies w i = Inr False)"
    then have "js_lt (Fin (of_nat c)) (retryLimit opts)" by blast
    with a have
      "f v rt this key p opts False (plusPlus c) (afterRetry key p (retryDelay opts) w) = Some y"
      using body
      by (simp add: applyLock_mock afterRetry_def mockSetNX_def mockRuntime_def)
    from IH [OF this] a plusPlus_le [of c] show False
      by (simp add: afterRetry_simps)
  qed
qed

lemma retryLoop_diverges:
  assumes "client this = Client mockClient"
    and "\<forall>k\<le>maxExact. js_lt (Fin (of_nat k)) (retryLimit opts)"
    and "\<forall>i. setNXReplies w i = Inr False"
    and "c \<le> maxExact"
  shows "retryLoop v mockRuntime this key p opts False c w = None"
proof (cases "retryLoop v mockRuntime this key p opts False c w")
  case None
  then show ?thesis .
next
  case (Some y)
  from retryLoop_diverges_aux [OF Some] assms show ?thesis by simp
qed

lemma acquireLock_diverges:
  assumes "client this = Client mockClient"
    and "getOptions v this lso = Inr opts"
    and "getRedisKey v lockName = Inr key"
    and "\<forall>k\<le>maxExact. js_lt (Fin (of_nat k)) (retryLimit opts)"
  shows "acquireLock v mockRuntime this lockName lso (freshMock (\<lambda>i. False) clock) = None"
proof -
  let ?W = "freshMock (\<lambda>i. False) clock"
  have "retryLoop v mockRuntime this key p opts False 0
          (snd (mockSetNX key p (snd (dateISO mockRuntime ?W)))) = None" for p
    by (rule retryLoop_diverges [OF assms(1,4)])
       (simp_all add: afterSetNX_simps afterDate_simps freshMock_simps)
  then show ?thesis
    by (simp add: acquireLock_first_attempt [OF assms(2,3)] applyLock_mock [OF assms(1)]
        afterDate_simps freshMock_simps)
qed

text \<open>
  One attempt on the recording client: one \<^verbatim>\<open>setNX\<close> with the key and payload handed
  over, at most one \<^verbatim>\<open>expire\<close>, nothing else.
\<close>

lemma applyLock_mock_calls:
  assumes "client this = Client mockClient"
  shows "\<exists>ext. calls (snd (applyLock v this key p t w)) = calls w @ ext \<and> attempts ext = 1 \<and>
           NewDate \<notin> set ext \<and> (\<forall>e\<in>set ext. isSetNX e \<longrightarrow> e = SetNX key p)"
  by (cases "setNXReplies w 0"; cases "expireReplies w 0")
     (simp_all add: applyLock_mock [OF assms] afterSetNX_simps afterExpire_simps attempts_def)

text \<open>With a finite retry limit the loop returns, whatever the store answers.\<close>

lemma retryLoop_bounded:
  assumes "client this = Client mockClient" and "retryLimit opts = Fin r"
    and small: "nat \<lceil>r\<rceil> \<le> maxExact"
  shows "\<exists>res w' ext. retryLoop v mockRuntime this key p opts b c w = Some (res, w') \<and>
           calls w' = calls w @ ext \<and> attempts ext \<le> nat \<lceil>r\<rceil> - c"
proof (induction "nat \<lceil>r\<rceil> - c" arbitrary: b c w)
  case 0
  then have "\<not> js_lt (Fin (of_nat c)) (retryLimit opts)"
    using assms(2) js_lt_of_nat [of c r] by simp
  then show ?case by (subst retryLoop.simps) (simp add: attempts_def)
next
  case (Suc k)
  show ?case
  proof (cases "\<not> b \<and> js_lt (Fin (of_nat c)) (retryLimit opts)")
    case False
    then show ?thesis by (subst retryLoop.simps) (auto simp add: attempts_def)
  next
    case True
    then have "c < nat \<lceil>r\<rceil>" using assms(2) js_lt_of_nat [of c r] by simp
    then have pp: "plusPlus c = c + 1" using small by (simp add: plusPlus_below)
    let ?w1 = "sleep mockRuntime (retryDelay opts) w"
    obtain res w2 where a: "applyLock v this key p (ttl opts) ?w1 = (res, w2)"
      by (cases "applyLock v this key p (ttl opts) ?w1")
    from applyLock_mock_calls [OF assms(1), of v key p "ttl opts" ?w1] a
    obtain ext1 where e1: "calls w2 = calls ?w1 @ ext1" "attempts ext1 = 1"
      by auto
    have c1: "calls ?w1 = calls w @ [Sleep (retryDelay opts)]"
      by (simp add: mockRuntime_def)
    show ?thesis
    proof (cases res)
      case (Inl e)
      have "retryLoop v mockRuntime this key p opts b c w = Some (Inl e, w2)"
        using True a Inl by (subst retryLoop.simps) simp
      moreover have "calls w2 = calls w @ (Sleep (retryDelay opts) # ext1)"
        using e1 c1 by simp
      moreover have "attempts (Sleep (retryDelay opts) # ext1) \<le> nat \<lceil>r\<rceil> - c"
        using e1(2) Suc(2) by (simp add: attempts_def)
      ultimately show ?thesis by blast
    next
      case (Inr b')
      have "k = nat \<lceil>r\<rceil> - (c + 1)" using Suc(2) by simp
      from Suc(1) [OF this, of b' w2] obtain res' w' ext where l:
        "retryLoop v mockRuntime this key p opts b' (c + 1) w2 = Some (res', w')"
        "calls w' = calls w2 @ ext" "attempts ext \<le> nat \<lceil>r\<rceil> - (c + 1)"
        by blast
      have "retryLoop v mockRuntime this key p opts b c w = Some (res', w')"
        using True a Inr l(1) pp by (subst retryLoop.simps) simp
      moreover have "calls w' = calls w @ (Sleep (retryDelay opts) # ext1 @ ext)"
        using e1 c1 l(2) by simp
      moreover have "attempts (Sleep (retryDelay opts) # ext1 @ ext) \<le> nat \<lceil>r\<rceil> - c"
        using e1(2) l(3) Suc(2) by (simp add: attempts_def)
      ultimately show ?thesis by blast
    qed
  qed
qed

subsection \<open>Acquisition with retry\<close>







subsection \<open>A call watched for a number of rounds\<close>

lemma retryRounds_calls:
  assumes "client this = Client mockClient"
  shows "\<exists>ext. calls (snd (retryRounds n v mockRuntime this key p opts b c w)) = calls w @ ext \<and>
           NewDate \<notin> set ext \<and> (\<forall>e\<in>set ext. isSetNX e \<longrightarrow> e = SetNX key p)"
proof (induction n arbitrary: b c w)
  case 0
  show ?case by simp
next
  case (Suc n)
  show ?case
  proof (cases "\<not> b \<and> js_lt (Fin (of_nat c)) (retryLimit opts)")
    case False
    then show ?thesis by auto
  next
    case True
    let ?w1 = "sleep mockRuntime (retryDelay opts) w"
    obtain res w2 where a: "applyLock v this key p (ttl opts) ?w1 = (res, w2)"
      by (cases "applyLock v this key p (ttl opts) ?w1")
    from applyLock_mock_calls [OF assms, of v key p "ttl opts" ?w1] a
    obtain ext1 where e1: "calls w2 = calls ?w1 @ ext1" "NewDate \<notin> set ext1"
      "\<forall>e\<in>set ext1. isSetNX e \<longrightarrow> e = SetNX key p"
      by auto
    have c1: "calls ?w1 = calls w @ [Sleep (retryDelay opts)]"
      by (simp add: mockRuntime_def)
    show ?thesis
    proof (cases res)
      case (Inl e)
      have "calls (snd (retryRounds (Suc n) v mockRuntime this key p opts b c w)) =
              calls w @ (Sleep (retryDelay opts) # ext1)"
        using True a Inl e1(1) c1 by simp
      moreover have "NewDate \<notin> set (Sleep (retryDelay opts) # ext1)"
        using e1(2) by simp
      moreover have
        "\<forall>e\<in>set (Sleep (retryDelay opts) # ext1). isSetNX e \<longrightarrow> e = SetNX key p"
        using e1(3) by simp
      ultimately show ?thesis by blast
    next
      case (Inr b')
      from Suc [of b' "plusPlus c" w2] obtain ext where l:
        "calls (snd (retryRounds n v mockRuntime this key p opts b' (plusPlus c) w2)) =
           calls w2 @ ext"
        "NewDate \<notin> set ext" "\<forall>e\<in>set ext. isSetNX e \<longrightarrow> e = SetNX key p"
        by blast
      have "calls (snd (retryRounds (Suc n) v mockRuntime this key p opts b c w)) =
              calls w @ (Sleep (retryDelay opts) # ext1 @ ext)"
        using True a Inr e1(1) c1 l(1) by simp
      moreover have "NewDate \<notin> set (Sleep (retryDelay opts) # ext1 @ ext)"
        using e1(2) l(2) by simp
      moreover have
        "\<forall>e\<in>set (Sleep (retryDelay opts) # ext1 @ ext). isSetNX e \<longrightarrow> e = SetNX key p"
        using e1(3) l(3) by auto
      ultimately show ?thesis by blast
    qed
  qed
qed

text \<open>A call returns exactly when, watched long enough, it is seen to return, with the same
  result and state.\<close>

lemma retryRounds_returns:
  "retryRounds n v rt this key p opts b c s = (Some r, s') \<Longrightarrow>
     retryLoop v rt this key p opts b c s = Some (r, s')"
proof (induction n arbitrary: b c s)
  case 0
  then show ?case by (subst retryLoop.simps) (auto split: if_splits)
next
  case (Suc n)
  show ?case
  proof (cases "\<not> b \<and> js_lt (Fin (of_nat c)) (retryLimit opts)")
    case False
    with Suc(2) show ?thesis by (subst retryLoop.simps) auto
  next
    case True
    obtain res s2 where a: "applyLock v this key p (ttl opts) (sleep rt (retryDelay opts) s) = (res, s2)"
      by (cases "applyLock v this key p (ttl opts) (sleep rt (retryDelay opts) s)")
    show ?thesis
    proof (cases res)
      case (Inl e)
      with Suc(2) True a show ?thesis by (subst retryLoop.simps) auto
    next
      case (Inr b')
      with Suc(2) True a have
        "retryRounds n v rt this key p opts b' (plusPlus c) s2 = (Some r, s')" by simp
      from Suc(1) [OF this] True a Inr show ?thesis by (subst retryLoop.simps) simp
    qed
  qed
qed

lemma retryLoop_rounds:
  assumes "retryLoop v rt this key p opts b c s = Some y"
  shows "\<exists>n. retryRounds n v rt this key p opts b c s = (Some (fst y), snd y)"
proof (rule retryLoop.raw_induct
    [where P = "\<lambda>v rt this key p opts b c s y.
       \<exists>n. retryRounds n v rt this key p opts b c s = (Some (fst y), snd y)", OF _ assms])
  fix f :: "variant \<Rightarrow> 'a Runtime \<Rightarrow> 'a Lock \<Rightarrow> string \<Rightarrow> string \<Rightarrow> LockOptions
     \<Rightarrow> bool \<Rightarrow> nat \<Rightarrow> 'a \<Rightarrow> ((error + bool) \<times> 'a) option"
  fix v rt this key p opts b c s y
  assume IH: "\<And>v rt this key p opts b c s y. f v rt this key p opts b c s = Some y \<Longrightarrow>
     \<exists>n. retryRounds n v rt this key p opts b c s = (Some (fst y), snd y)"
  assume body: "(if \<not> b \<and> js_lt (Fin (of_nat c)) (retryLimit opts)
      then (case applyLock v this key p (ttl opts) (sleep rt (retryDelay opts) s) of
              (Inl e, s2) \<Rightarrow> Some (Inl e, s2)
            | (Inr lockApplied', s2) \<Rightarrow> f v rt this key p opts lockApplied' (plusPlus c) s2)
      else Some (Inr b, s)) = Some y"
  show "\<exists>n. retryRounds n v rt this key p opts b c s = (Some (fst y), snd y)"
  proof (cases "\<not> b \<and> js_lt (Fin (of_nat c)) (retryLimit opts)")
    case False
    then have "y = (Inr b, s)" using body by auto
    with False have "retryRounds 0 v rt this key p opts b c s = (Some (fst y), snd y)"
      by auto
    then show ?thesis by blast
  next
    case True
    obtain res s2 where a: "applyLock v this key p (ttl opts) (sleep rt (retryDelay opts) s) = (res, s2)"
      by (cases "applyLock v this key p (ttl opts) (sleep rt (retryDelay opts) s)")
    show ?thesis
    proof (cases res)
      case (Inl e)
      then have "y = (Inl e, s2)" using body True a by simp
      with True a Inl have "retryRounds (Suc 0) v rt this key p opts b c s = (Some (fst y), snd y)"
        by simp
      then show ?thesis by blast
    next
      case (Inr b')
      then have "f v rt this key p opts b' (plusPlus c) s2 = Some y"
        using body True a by simp
      from IH [OF this] obtain n where
        "retryRounds n v rt this key p opts b' (plusPlus c) s2 = (Some (fst y), snd y)" by blast
      with True a Inr have "retryRounds (Suc n) v rt this key p opts b c s = (Some (fst y), snd y)"
        by simp
      then show ?thesis by blast
    qed
  qed
qed

lemma acquireLock_rounds_iff:
  "acquireLock v rt this lockName lso s = Some (r, s') \<longleftrightarrow>
     (\<exists>n. acquireLockRounds n v rt this lockName lso s = (Some r, s'))"
proof (cases "getOptions v this lso")
  case (Inl e)
  then show ?thesis by (auto simp add: acquireLock_def acquireLockRounds_def)
next
  case opts: (Inr opts)
  show ?thesis
  proof (cases "getRedisKey v lockName")
    case (Inl e)
    then show ?thesis using opts by (auto simp add: acquireLock_def acquireLockRounds_def)
  next
    case (Inr key)
    obtain d s0 where d: "dateISO rt s = (d, s0)" by (cases "dateISO rt s")
    obtain res s1 where a: "applyLock v this key (lockedSince d) (ttl opts) s0 = (res, s1)"
      by (cases "applyLock v this key (lockedSince d) (ttl opts) s0")
    show ?thesis
    proof (cases res)
      case (Inl e)
      then show ?thesis
        using opts Inr d a by (auto simp add: acquireLock_def acquireLockRounds_def)
    next
      case b: (Inr b)
      have 1: "acquireLock v rt this lockName lso s =
                 retryLoop v rt this key (lockedSince d) opts b 0 s1"
        using opts Inr d a b by (simp add: acquireLock_def)
      have 2: "acquireLockRounds n v rt this lockName lso s =
                 retryRounds n v rt this key (lockedSince d) opts b 0 s1" for n
        using opts Inr d a b by (simp add: acquireLockRounds_def)
      show ?thesis
        unfolding 1 2
        using retryRounds_returns [of _ v rt this key "lockedSince d" opts b 0 s1 r s']
          retryLoop_rounds [of v rt this key "lockedSince d" opts b 0 s1 "(r, s')"]
        by auto
    qed
  qed
qed

lemma applyLock_mock_first_call:
  assumes "client this = Client mockClient"
  shows "\<exists>ext. calls (snd (applyLock v this key p t w)) = calls w @ SetNX key p # ext \<and>
           NewDate \<notin> set ext \<and> (\<forall>e\<in>set ext. \<not> isSetNX e)"
  by (cases "setNXReplies w 0"; cases "expireReplies w 0")
     (simp_all add: applyLock_mock [OF assms] afterSetNX_simps afterExpire_simps)

lemma acquireLockRounds_mock:
  assumes "client this = Client mockClient"
    and "getOptions v this lso = Inr opts" and "getRedisKey v lockName = Inr key"
  shows "\<exists>rest. calls (snd (acquireLockRounds n v mockRuntime this lockName lso w)) =
          calls w @ NewDate # SetNX key (lockedSince (dates w (length (calls w)))) # rest \<and>
        NewDate \<notin> set rest \<and>
        (\<forall>e\<in>set rest. isSetNX e \<longrightarrow>
           e = SetNX key (lockedSince (dates w (length (calls w)))))"
proof -
  let ?p = "lockedSince (dates w (length (calls w)))"
  let ?w0 = "w\<lparr>calls := calls w @ [NewDate]\<rparr>"
  have d: "dateISO mockRuntime w = (dates w (length (calls w)), ?w0)"
    by (simp add: mockRuntime_def)
  obtain r1 w1 where a: "applyLock v this key ?p (ttl opts) ?w0 = (r1, w1)"
    by (cases "applyLock v this key ?p (ttl opts) ?w0")
  from applyLock_mock_first_call [OF assms(1), of v key ?p "ttl opts" ?w0] a
  obtain ext1 where e1: "calls w1 = calls w @ NewDate # SetNX key ?p # ext1"
    "NewDate \<notin> set ext1" "\<forall>e\<in>set ext1. \<not> isSetNX e"
    by auto
  show ?thesis
  proof (cases r1)
    case (Inl e)
    then have "snd (acquireLockRounds n v mockRuntime this lockName lso w) = w1"
      using assms(2,3) d a by (simp add: acquireLockRounds_def)
    with e1 show ?thesis by auto
  next
    case b: (Inr b)
    have r: "acquireLockRounds n v mockRuntime this lockName lso w =
               retryRounds n v mockRuntime this key ?p opts b 0 w1"
      using assms(2,3) d a b by (simp add: acquireLockRounds_def)
    from retryRounds_calls [OF assms(1), of n v key ?p opts b 0 w1] obtain ext where l:
      "calls (snd (retryRounds n v mockRuntime this key ?p opts b 0 w1)) = calls w1 @ ext"
      "NewDate \<notin> set ext" "\<forall>e\<in>set ext. isSetNX e \<longrightarrow> e = SetNX key ?p"
      by blast
    have "calls (snd (acquireLockRounds n v mockRuntime this lockName lso w)) =
            calls w @ NewDate # SetNX key ?p # (ext1 @ ext)"
      using r l(1) e1(1) by simp
    moreover have "NewDate \<notin> set (ext1 @ ext)" using e1(2) l(2) by simp
    moreover have "\<forall>e\<in>set (ext1 @ ext). isSetNX e \<longrightarrow> e = SetNX key ?p"
      using e1(3) l(3) by auto
    ultimately show ?thesis by blast
  qed
qed

lemma huge_limit_above_counter:
  "\<forall>k\<le>maxExact. js_lt (Fin (of_nat k)) (Fin 9007199254740994)"
proof (intro allI impI)
  fix k assume "k \<le> maxExact"
  then have "rat_of_nat k \<le> rat_of_nat maxExact" by simp
  also have "rat_of_nat maxExact = 9007199254740992" by (simp add: maxExact_def)
  finally show "js_lt (Fin (of_nat k)) (Fin 9007199254740994)" by simp
qed




subsection \<open>Termination\<close>

text \<open>
  C9, as amended. For options that pass validation with a finite retry limit \<open>r\<close> not
  above \<open>2^53\<close>, and for every script of store answers, failures included,
  \<^verbatim>\<open>acquireLock\<close> returns (a boolean or the error of a failed store call) after at
  most \<open>\<lceil>r\<rceil> + 1\<close> attempts of its own; for an integer limit that is \<open>r + 1\<close>.
\<close>

theorem acquireLock_returns_when_finite:
  assumes "client this = Client mockClient"
    and "getOptions v this lockSpecificOptions = Inr opts"
    and "retryLimit opts = Fin r"
    and "r \<le> of_nat maxExact"
  shows "\<exists>res w'. acquireLock v mockRuntime this lockName lockSpecificOptions w = Some (res, w') \<and>
           attempts (calls w') \<le> attempts (calls w) + nat \<lceil>r\<rceil> + 1"
proof (cases "getRedisKey v lockName")
  case (Inl e)
  then show ?thesis using assms(2) by (simp add: acquireLock_def)
next
  case (Inr key)
  have "\<lceil>r\<rceil> \<le> int maxExact" using assms(4) by (simp add: ceiling_le_iff)
  then have small: "nat \<lceil>r\<rceil> \<le> maxExact" by simp
  let ?p = "lockedSince (fst (dateISO mockRuntime w))"
  let ?w0 = "snd (dateISO mockRuntime w)"
  have w0: "attempts (calls ?w0) = attempts (calls w)"
    by (simp add: afterDate_simps attempts_def)
  obtain res w1 where a: "applyLock v this key ?p (ttl opts) ?w0 = (res, w1)"
    by (cases "applyLock v this key ?p (ttl opts) ?w0")
  from applyLock_mock_calls [OF assms(1), of v key ?p "ttl opts" ?w0] a
  obtain ext1 where e1: "calls w1 = calls ?w0 @ ext1" "attempts ext1 = 1"
    by auto
  show ?thesis
  proof (cases res)
    case (Inl e)
    then show ?thesis
      using a e1 w0
      by (simp add: acquireLock_first_attempt [OF assms(2) Inr] attempts_append)
  next
    case b: (Inr b)
    from retryLoop_bounded [OF assms(1,3) small, of v key ?p b 0 w1] obtain res' w' ext where l:
      "retryLoop v mockRuntime this key ?p opts b 0 w1 = Some (res', w')"
      "calls w' = calls w1 @ ext" "attempts ext \<le> nat \<lceil>r\<rceil> - 0"
      by blast
    have "acquireLock v mockRuntime this lockName lockSpecificOptions w = Some (res', w')"
      using a b l(1) by (simp add: acquireLock_first_attempt [OF assms(2) Inr])
    moreover have "attempts (calls w') \<le> attempts (calls w) + nat \<lceil>r\<rceil> + 1"
      using e1 l(2,3) w0 by (simp add: attempts_append)
    ultimately show ?thesis by blast
  qed
qed

theorem acquireLock_returns_when_finite_witness:
  "client (mockLock V2) = Client mockClient \<and>
   getOptions V2 (mockLock V2) (noOptions\<lparr>retryLimit := Num (Fin (5 / 2))\<rparr>) =
     Inr \<lparr>retryLimit = Fin (5 / 2), retryDelay = Fin 100, ttl = Fin 3\<rparr> \<and>
   5 / 2 \<le> rat_of_nat maxExact \<and>
   (\<exists>res w'. acquireLock V2 mockRuntime (mockLock V2) (Str ''beer'')
                (noOptions\<lparr>retryLimit := Num (Fin (5 / 2))\<rparr>)
                (freshMock (\<lambda>i. False) (\<lambda>i. [])) = Some (res, w') \<and>
              attempts (calls w') \<le> 4)"
proof -
  let ?opts = "\<lparr>retryLimit = Fin (5 / 2), retryDelay = Fin 100, ttl = Fin 3\<rparr> :: LockOptions"
  have c: "client (mockLock V2) = Client mockClient"
    by (simp add: mockLock_simps)
  have g: "getOptions V2 (mockLock V2) (noOptions\<lparr>retryLimit := Num (Fin (5 / 2))\<rparr>) = Inr ?opts"
    by (simp add: noOptions_def mockLock_simps validated_def)
  have l: "retryLimit ?opts = Fin (5 / 2)" by simp
  have m: "5 / 2 \<le> rat_of_nat maxExact" by (simp add: maxExact_def)
  have "\<lceil>5 / 2 :: rat\<rceil> = 3" by (simp add: ceiling_eq_iff)
  then have n: "attempts (calls (freshMock (\<lambda>i. False) (\<lambda>i. []))) + nat \<lceil>5 / 2 :: rat\<rceil> + 1 = 4"
    by (simp add: freshMock_simps attempts_def)
  from acquireLock_returns_when_finite [OF c g l m, of "Str ''beer''" "freshMock (\<lambda>i. False) (\<lambda>i. [])"]
  have "\<exists>res w'. acquireLock V2 mockRuntime (mockLock V2) (Str ''beer'')
                (noOptions\<lparr>retryLimit := Num (Fin (5 / 2))\<rparr>)
                (freshMock (\<lambda>i. False) (\<lambda>i. [])) = Some (res, w') \<and>
              attempts (calls w') \<le> 4"
    unfolding n .
  with c g m show ?thesis by blast
qed

text \<open>
  The claim as first stated fails in three ways. \<^verbatim>\<open>Infinity\<close> is a number greater
  than 0, so both versions accept it as retry limit; \<^verbatim>\<open>counter < Infinity\<close> then holds
  for ever, and against a store that always answers false the call never returns. The
  same happens with the finite limit \<open>2^53 + 2\<close>, which the counter never reaches. And a
  limit of one half is accepted and gives two attempts, more than the limit plus one.
\<close>

theorem acquireLock_unbounded_limit_never_returns:
  "getOptions V1 (mockLock V1) (noOptions\<lparr>retryLimit := Num PosInf\<rparr>) =
     Inr \<lparr>retryLimit = PosInf, retryDelay = Fin 1000, ttl = Fin 3\<rparr> \<and>
   acquireLock V1 mockRuntime (mockLock V1) (Str ''beer'') (noOptions\<lparr>retryLimit := Num PosInf\<rparr>)
     (freshMock (\<lambda>i. False) (\<lambda>i. [])) = None \<and>
   getOptions V2 (mockLock V2) (noOptions\<lparr>retryLimit := Num PosInf\<rparr>) =
     Inr \<lparr>retryLimit = PosInf, retryDelay = Fin 100, ttl = Fin 3\<rparr> \<and>
   acquireLock V2 mockRuntime (mockLock V2) (Str ''beer'') (noOptions\<lparr>retryLimit := Num PosInf\<rparr>)
     (freshMock (\<lambda>i. False) (\<lambda>i. [])) = None \<and>
   getOptions V2 (mockLock V2) (noOptions\<lparr>retryLimit := Num (Fin 9007199254740994)\<rparr>) =
     Inr \<lparr>retryLimit = Fin 9007199254740994, retryDelay = Fin 100, ttl = Fin 3\<rparr> \<and>
   acquireLock V2 mockRuntime (mockLock V2) (Str ''gunna'')
     (noOptions\<lparr>retryLimit := Num (Fin 9007199254740994)\<rparr>)
     (freshMock (\<lambda>i. False) (\<lambda>i. [])) = None \<and>
   getOptions V2 (mockLock V2) (noOptions\<lparr>retryLimit := Num (Fin (1 / 2))\<rparr>) =
     Inr \<lparr>retryLimit = Fin (1 / 2), retryDelay = Fin 100, ttl = Fin 3\<rparr> \<and>
   outcome (acquireLock V2 mockRuntime (mockLock V2) (Str ''beer'')
              (noOptions\<lparr>retryLimit := Num (Fin (1 / 2))\<rparr>) (freshMock (\<lambda>i. False) (\<lambda>i. []))) =
     Some (Inr False,
       [NewDate, SetNX ''redis-promise-lock:beer'' (lockedSince []), Sleep (Fin 100),
        SetNX ''redis-promise-lock:beer'' (lockedSince [])])"
proof -
  let ?W = "freshMock (\<lambda>i. False) (\<lambda>i. [])"
  let ?inf = "noOptions\<lparr>retryLimit := Num PosInf\<rparr>"
  let ?big = "noOptions\<lparr>retryLimit := Num (Fin 9007199254740994)\<rparr>"
  let ?half = "noOptions\<lparr>retryLimit := Num (Fin (1 / 2))\<rparr>"
  have c: "client (mockLock v) = Client mockClient" for v
    by (simp add: mockLock_simps)
  have k: "getRedisKey v (Str ''beer'') = Inr ''redis-promise-lock:beer''" for v
    by (cases v) (simp_all add: packageName_def)
  have k': "getRedisKey V2 (Str ''gunna'') = Inr ''redis-promise-lock:gunna''"
    by (simp add: packageName_def)
  have g1: "getOptions V1 (mockLock V1) ?inf =
     Inr \<lparr>retryLimit = PosInf, retryDelay = Fin 1000, ttl = Fin 3\<rparr>"
    by (simp add: noOptions_def mockLock_simps validated_def js_or_def)
  have g2: "getOptions V2 (mockLock V2) ?inf =
     Inr \<lparr>retryLimit = PosInf, retryDelay = Fin 100, ttl = Fin 3\<rparr>"
    by (simp add: noOptions_def mockLock_simps validated_def)
  have g3: "getOptions V2 (mockLock V2) ?half =
     Inr \<lparr>retryLimit = Fin (1 / 2), retryDelay = Fin 100, ttl = Fin 3\<rparr>"
    by (simp add: noOptions_def mockLock_simps validated_def)
  have g4: "getOptions V2 (mockLock V2) ?big =
     Inr \<lparr>retryLimit = Fin 9007199254740994, retryDelay = Fin 100, ttl = Fin 3\<rparr>"
    by (simp add: noOptions_def mockLock_simps validated_def)
  have n1: "acquireLock V1 mockRuntime (mockLock V1) (Str ''beer'') ?inf ?W = None"
    by (rule acquireLock_diverges [OF c g1 k]) simp
  have n2: "acquireLock V2 mockRuntime (mockLock V2) (Str ''beer'') ?inf ?W = None"
    by (rule acquireLock_diverges [OF c g2 k]) simp
  have n4: "acquireLock V2 mockRuntime (mockLock V2) (Str ''gunna'') ?big ?W = None"
    using huge_limit_above_counter by (intro acquireLock_diverges [OF c g4 k']) simp
  have "\<lceil>1 / 2 :: rat\<rceil> = 1" by (simp add: ceiling_eq_iff)
  then have h: "nat \<lceil>1 / 2 :: rat\<rceil> = Suc 0" by simp
  have small: "nat \<lceil>1 / 2 :: rat\<rceil> \<le> maxExact" unfolding h by (simp add: maxExact_def)
  have "\<forall>i\<le>nat \<lceil>1 / 2 :: rat\<rceil>. \<not> False" by simp
  from acquireLock_exhausts [OF c g3 k _ this small, of "\<lambda>i. []"]
  have o: "outcome (acquireLock V2 mockRuntime (mockLock V2) (Str ''beer'') ?half ?W) =
     Some (Inr False,
       [NewDate, SetNX ''redis-promise-lock:beer'' (lockedSince []), Sleep (Fin 100),
        SetNX ''redis-promise-lock:beer'' (lockedSince [])])"
    unfolding h by (auto simp add: outcome_def)
  from g1 n1 g2 n2 g4 n4 g3 o show ?thesis by blast
qed

subsection \<open>The payload\<close>

text \<open>
  What the recording runtime's sleep leaves behind, and a call with accepted options and
  name as its first attempt followed by the rounds of the loop.
\<close>

lemma afterSleep_simps:
  "setNXReplies (sleep mockRuntime d w) = setNXReplies w"
  "expireReplies (sleep mockRuntime d w) = expireReplies w"
  "calls (sleep mockRuntime d w) = calls w @ [Sleep d]"
  by (simp_all add: mockRuntime_def)

lemma acquireLockRounds_first_attempt:
  assumes "getOptions v this lso = Inr opts" and "getRedisKey v lockName = Inr key"
  shows "acquireLockRounds n v rt this lockName lso s =
     (case applyLock v this key (lockedSince (fst (dateISO rt s))) (ttl opts)
             (snd (dateISO rt s)) of
        (Inl e, s1) \<Rightarrow> (Some (Inl e), s1)
      | (Inr b, s1) \<Rightarrow>
          retryRounds n v rt this key (lockedSince (fst (dateISO rt s))) opts b 0 s1)"
  using assms by (simp add: acquireLockRounds_def Let_def case_prod_beta)

text \<open>
  C10. Within one \<^verbatim>\<open>acquireLock\<close> call whose name and options are accepted, the
  clock is read exactly once, before the first attempt; the first attempt and every
  later one pass the same key and the same payload to \<^verbatim>\<open>setNX\<close>, and that payload is
  the JSON text \<^verbatim>\<open>{"lockedSince":"..."}\<close> holding the time the clock gave at the
  start of the call, not the time of a later attempt. This is stated of the calls made
  within any number \<open>n\<close> of rounds of the loop, so it holds of a call that never returns
  as well; and the calls that do return are exactly those some number of rounds
  completes, with the same result and the same final state.
\<close>

theorem acquireLock_one_payload:
  assumes "client this = Client mockClient"
    and "getOptions v this lockSpecificOptions = Inr opts"
    and "getRedisKey v lockName = Inr key"
  shows \<open>(\<exists>rest.
            calls (snd (acquireLockRounds n v mockRuntime this lockName lockSpecificOptions w)) =
              calls w @ NewDate #
                SetNX key (''{"lockedSince":"'' @ dates w (length (calls w)) @ ''"}'') # rest \<and>
            NewDate \<notin> set rest \<and>
            (\<forall>e\<in>set rest. isSetNX e \<longrightarrow>
               e = SetNX key (''{"lockedSince":"'' @ dates w (length (calls w)) @ ''"}''))) \<and>
         (acquireLock v mockRuntime this lockName lockSpecificOptions w = Some (res, w') \<longleftrightarrow>
            (\<exists>m. acquireLockRounds m v mockRuntime this lockName lockSpecificOptions w =
                   (Some res, w')))\<close>
  using acquireLockRounds_mock [OF assms, of n w]
    acquireLock_rounds_iff [of v mockRuntime this lockName lockSpecificOptions w res w']
  by (simp add: lockedSince_def)

theorem acquireLock_one_payload_witness:
  \<open>client (mockLock V2) = Client mockClient \<and>
   getOptions V2 (mockLock V2) beerOptions =
     Inr \<lparr>retryLimit = Fin 3, retryDelay = Fin 10, ttl = Fin 5\<rparr> \<and>
   getRedisKey V2 (Str ''beer'') = Inr ''redis-promise-lock:beer'' \<and>
   tickingClock 0 = ''2024-01-01T00:00:00.000Z'' \<and>
   tickingClock 3 = ''2024-01-01T00:00:09.000Z'' \<and>
   fst (acquireLockRounds 1 V2 mockRuntime (mockLock V2) (Str ''beer'') beerOptions
          (freshMock (\<lambda>i. 2 \<le> i) tickingClock)) = None \<and>
   calls (snd (acquireLockRounds 1 V2 mockRuntime (mockLock V2) (Str ''beer'') beerOptions
                 (freshMock (\<lambda>i. 2 \<le> i) tickingClock))) =
     [NewDate,
      SetNX ''redis-promise-lock:beer'' ''{"lockedSince":"2024-01-01T00:00:00.000Z"}'',
      Sleep (Fin 10),
      SetNX ''redis-promise-lock:beer'' ''{"lockedSince":"2024-01-01T00:00:00.000Z"}''] \<and>
   (\<exists>rest. calls (snd (acquireLockRounds 1 V2 mockRuntime (mockLock V2) (Str ''beer'')
                          beerOptions (freshMock (\<lambda>i. 2 \<le> i) tickingClock))) =
             NewDate #
               SetNX ''redis-promise-lock:beer''
                 ''{"lockedSince":"2024-01-01T00:00:00.000Z"}'' # rest \<and>
           NewDate \<notin> set rest \<and>
           (\<forall>e\<in>set rest. isSetNX e \<longrightarrow>
              e = SetNX ''redis-promise-lock:beer''
                    ''{"lockedSince":"2024-01-01T00:00:00.000Z"}'')) \<and>
   (\<exists>w' m. acquireLock V2 mockRuntime (mockLock V2) (Str ''beer'') beerOptions
              (freshMock (\<lambda>i. 2 \<le> i) tickingClock) = Some (Inr True, w') \<and>
           acquireLockRounds m V2 mockRuntime (mockLock V2) (Str ''beer'') beerOptions
              (freshMock (\<lambda>i. 2 \<le> i) tickingClock) = (Some (Inr True), w'))\<close>
proof -
  let ?opts = "\<lparr>retryLimit = Fin 3, retryDelay = Fin 10, ttl = Fin 5\<rparr> :: LockOptions"
  let ?W = "freshMock (\<lambda>i. 2 \<le> i) tickingClock"
  let ?obs = "acquireLockRounds 1 V2 mockRuntime (mockLock V2) (Str ''beer'') beerOptions ?W"
  let ?run = "acquireLock V2 mockRuntime (mockLock V2) (Str ''beer'') beerOptions ?W"
  let ?key = "''redis-promise-lock:beer''"
  let ?p = \<open>''{"lockedSince":"2024-01-01T00:00:00.000Z"}''\<close>
  have c: "client (mockLock V2) = Client mockClient"
    by (simp add: mockLock_simps)
  have g: "getOptions V2 (mockLock V2) beerOptions = Inr ?opts"
    by (simp add: beerOptions_def validated_def)
  have k: "getRedisKey V2 (Str ''beer'') = Inr ?key"
    by (simp add: packageName_def)
  have l: "retryLimit ?opts = Fin 3" by simp
  have d0: "tickingClock 0 = ''2024-01-01T00:00:00.000Z''"
    and d3: "tickingClock 3 = ''2024-01-01T00:00:09.000Z''"
    by (simp_all add: tickingClock_def)
  have p0: "plusPlus 0 = 1" by (simp add: plusPlus_def maxExact_def)
  have obs: "fst ?obs = None \<and>
             calls (snd ?obs) = [NewDate, SetNX ?key ?p, Sleep (Fin 10), SetNX ?key ?p]"
    by (simp add: acquireLockRounds_first_attempt [OF g k] applyLock_mock [OF c]
        afterDate_simps freshMock_simps afterSetNX_simps afterSleep_simps p0 d0
        lockedSince_def)
  have small: "nat \<lceil>3::rat\<rceil> \<le> maxExact" by (simp add: maxExact_def)
  have "(2::nat) \<le> nat \<lceil>3::rat\<rceil>" "(2::nat) \<le> 2" "\<forall>i<2::nat. \<not> 2 \<le> i"
    by simp_all
  from acquireLock_succeeds_after [OF c g k l this small, of tickingClock]
  obtain w' where run: "?run = Some (Inr True, w')"
    by blast
  from acquireLock_one_payload [OF c g k, of 1 ?W "Inr True" w'] run
  have t1: \<open>\<exists>rest. calls (snd ?obs) =
              calls ?W @ NewDate #
                SetNX ?key (''{"lockedSince":"'' @ dates ?W (length (calls ?W)) @ ''"}'') # rest \<and>
             NewDate \<notin> set rest \<and>
             (\<forall>e\<in>set rest. isSetNX e \<longrightarrow>
                e = SetNX ?key
                      (''{"lockedSince":"'' @ dates ?W (length (calls ?W)) @ ''"}''))\<close>
    and t2: "\<exists>m. acquireLockRounds m V2 mockRuntime (mockLock V2) (Str ''beer'') beerOptions ?W =
                   (Some (Inr True), w')"
    by blast+
  have t1': "\<exists>rest. calls (snd ?obs) = NewDate # SetNX ?key ?p # rest \<and> NewDate \<notin> set rest \<and>
           (\<forall>e\<in>set rest. isSetNX e \<longrightarrow> e = SetNX ?key ?p)"
    using t1 by (simp add: freshMock_simps d0)
  from run t2 have t2': "\<exists>w' m. ?run = Some (Inr True, w') \<and>
      acquireLockRounds m V2 mockRuntime (mockLock V2) (Str ''beer'') beerOptions ?W =
        (Some (Inr True), w')"
    by blast
  from c g k d0 d3 obs t1' t2' show ?thesis by blast
qed

end
